theory Spec2Isabelle
  imports Complex_Main
begin

section \<open>OptiFind: catalogue-based source finding around SoFiA 2\<close>

text \<open>
  A shallow embedding of \<^verbatim>\<open>optifind.py\<close>. The script is one module-level sequence of
  stages: command line, parameter file, cube header, axis roles, source catalogue,
  per-source loop, merge. Each stage is a function below, named after the variable or
  the comment that heads it in the script.

  Conventions of the model.
  \<^item> A Python \<^verbatim>\<open>str\<close> is a \<^typ>\<open>string\<close>; a \<^typ>\<open>char\<close> stands for a code point
    below 256.
  \<^item> A text file is the text Python's text layer delivers (decoded, universal newlines
    already translated); iterating over it yields \<open>py_lines\<close> of that text.
  \<^item> A Python \<^verbatim>\<open>float\<close> is a double: a finite one, written as the real number it
    denotes, an infinity or a NaN. Arithmetic on doubles belongs to the interpreter and
    is taken from the environment, with whatever rounding it performs.
  \<^item> A \<^verbatim>\<open>dict\<close> is an association list in insertion order with distinct keys.
\<close>

subsection \<open>Python string primitives\<close>

text \<open>\<^verbatim>\<open>str.isspace\<close> on one character, for code points below 256.\<close>

definition is_space :: "char \<Rightarrow> bool" where
  "is_space c =
     (let n = (of_char c :: nat)
      in (9 \<le> n \<and> n \<le> 13) \<or> (28 \<le> n \<and> n \<le> 32) \<or> n = 133 \<or> n = 160)"

text \<open>\<^verbatim>\<open>s.strip()\<close>\<close>

definition strip :: "string \<Rightarrow> string" where
  "strip s = rev (dropWhile is_space (rev (dropWhile is_space s)))"

text \<open>\<^verbatim>\<open>s.isspace()\<close>: at least one character, all of them whitespace.\<close>

definition isspace :: "string \<Rightarrow> bool" where
  "isspace s = (s \<noteq> [] \<and> list_all is_space s)"

text \<open>\<^verbatim>\<open>s.split(c)\<close> for a one-character separator: never the empty list.\<close>

fun py_split :: "char \<Rightarrow> string \<Rightarrow> string list" where
  "py_split c [] = [[]]"
| "py_split c (x # xs) =
     (if x = c then [] # py_split c xs
      else (case py_split c xs of [] \<Rightarrow> [[x]] | y # ys \<Rightarrow> (x # y) # ys))"

text \<open>\<^verbatim>\<open>s.split(c, 1)\<close> when \<open>c\<close> occurs in \<open>s\<close>: the text before the first \<open>c\<close> and
  the text after it; \<open>split1_head\<close> is \<^verbatim>\<open>s.split(c, 1)[0]\<close>, for every \<open>s\<close>.\<close>

definition split1_head :: "char \<Rightarrow> string \<Rightarrow> string" where
  "split1_head c s = takeWhile (\<lambda>x. x \<noteq> c) s"

definition split1_rest :: "char \<Rightarrow> string \<Rightarrow> string" where
  "split1_rest c s = tl (dropWhile (\<lambda>x. x \<noteq> c) s)"

text \<open>\<^verbatim>\<open>s.replace(a, b)\<close> for one-character \<open>a\<close> and \<open>b\<close>.\<close>

definition replace :: "char \<Rightarrow> char \<Rightarrow> string \<Rightarrow> string" where
  "replace a b s = map (\<lambda>c. if c = a then b else c) s"

text \<open>The lines a text file yields when iterated, each with its terminator.\<close>

fun py_lines :: "string \<Rightarrow> string list" where
  "py_lines [] = []"
| "py_lines (c # cs) =
     (if c = CHR 0x0A then [c] # py_lines cs
      else (case py_lines cs of [] \<Rightarrow> [[c]] | l # ls \<Rightarrow> (c # l) # ls))"

text \<open>\<^verbatim>\<open>"{:d}".format(i)\<close>\<close>

fun str_nat :: "nat \<Rightarrow> string" where
  "str_nat n =
     (if n < 10 then [char_of (48 + n)]
      else str_nat (n div 10) @ [char_of (48 + n mod 10)])"

declare str_nat.simps [simp del]

definition str_int :: "int \<Rightarrow> string" where
  "str_int i = (if i < 0 then CHR ''-'' # str_nat (nat (- i)) else str_nat (nat i))"

subsection \<open>Dictionaries\<close>

type_synonym dict = "(string \<times> string) list"

text \<open>\<^verbatim>\<open>d[k] = v\<close>: an existing key keeps its place, a new key goes to the end.\<close>

fun dict_set :: "string \<Rightarrow> string \<Rightarrow> dict \<Rightarrow> dict" where
  "dict_set k v [] = [(k, v)]"
| "dict_set k v (p # ps) = (if fst p = k then (k, v) # ps else p # dict_set k v ps)"

text \<open>\<^verbatim>\<open>d[k]\<close>: \<open>None\<close> stands for \<^verbatim>\<open>KeyError\<close>.\<close>

definition dict_get :: "dict \<Rightarrow> string \<Rightarrow> string option" where
  "dict_get d k = map_of d k"

subsection \<open>Read parameter file\<close>

text \<open>The test of line 120, on the stripped line.\<close>

definition is_setting :: "string \<Rightarrow> bool" where
  "is_setting line = (line \<noteq> [] \<and> hd line \<noteq> CHR ''#'' \<and> CHR ''='' \<in> set line)"

text \<open>Lines 121 to 128: the key and the value one setting line stores.\<close>

definition setting_key :: "string \<Rightarrow> string" where
  "setting_key line = strip (split1_head CHR ''='' line)"

definition setting_value :: "string \<Rightarrow> string" where
  "setting_value line =
     (let value = strip (split1_rest CHR ''='' line)
      in if value \<noteq> []
         then (if CHR ''#'' \<notin> set value then value else strip (split1_head CHR ''#'' value))
         else [])"

fun read_pars :: "string list \<Rightarrow> dict \<Rightarrow> dict" where
  "read_pars [] pars = pars"
| "read_pars (l # ls) pars =
     (let line = strip l
      in if is_setting line
         then read_pars ls (dict_set (setting_key line) (setting_value line) pars)
         else read_pars ls pars)"

subsection \<open>Effects\<close>

text \<open>
  The world outside the script: the text files it can read, which paths it can open for
  writing, and whatever a shell command does to both. What the script itself emits
  (standard output, standard error, the commands it hands to \<^verbatim>\<open>os.system\<close>) is
  recorded in order in the trace.
\<close>

datatype py_exception = KeyError string | ValueError | IndexError | OverflowError

datatype pyfloat = Finite real | PosInf | NegInf | NaN

datatype outcome = Exit nat | Uncaught py_exception

datatype event = Stdout string | Stderr string | System string | Usage

record world =
  files :: "string \<Rightarrow> string option"
  writable :: "string \<Rightarrow> bool"

record state =
  world :: world
  trace :: "event list"

text \<open>The cube header as the script consumes it: \<^verbatim>\<open>wcs.array_shape[::-1]\<close>,
  \<^verbatim>\<open>wcs.axis_type_names\<close> and \<^verbatim>\<open>wcs.wcs_world2pix([c], 0)[0]\<close>.\<close>

record cube =
  cube_axis_size :: "int list"
  cube_axis_type :: "string list"
  wcs_world2pix :: "pyfloat list \<Rightarrow> pyfloat list"

text \<open>The library and the collaborators: \<^verbatim>\<open>sys.argv\<close>, \<^verbatim>\<open>int\<close> and \<^verbatim>\<open>float\<close> on a
  string (\<open>None\<close> for \<^verbatim>\<open>ValueError\<close>), \<^verbatim>\<open>WCS\<close> on a file name (\<open>None\<close> for any
  exception while the header is read) and \<^verbatim>\<open>os.system\<close>. \<open>float_sub x i\<close> and
  \<open>float_add x i\<close> are \<^verbatim>\<open>x - i\<close> and \<^verbatim>\<open>x + i\<close> for a float \<open>x\<close> and an \<^verbatim>\<open>int\<close> \<open>i\<close>
  as the interpreter evaluates them in double precision: the value is the rounded one,
  and \<open>Inl\<close> stands for an exception raised on the way.\<close>

record env =
  argv :: "string list"
  py_int :: "string \<Rightarrow> int option"
  py_float :: "string \<Rightarrow> pyfloat option"
  float_sub :: "pyfloat \<Rightarrow> int \<Rightarrow> py_exception + pyfloat"
  float_add :: "pyfloat \<Rightarrow> int \<Rightarrow> py_exception + pyfloat"
  WCS :: "string \<Rightarrow> cube option"
  os_system :: "string \<Rightarrow> world \<Rightarrow> world"

definition nl :: string where
  "nl = [CHR 0x0A]"

definition emit :: "event \<Rightarrow> state \<Rightarrow> state" where
  "emit e st = st\<lparr>trace := trace st @ [e]\<rparr>"

text \<open>\<^verbatim>\<open>print(s)\<close>\<close>

definition print :: "string \<Rightarrow> state \<Rightarrow> state" where
  "print s st = emit (Stdout (s @ nl)) st"

definition exit_error :: "string \<Rightarrow> state \<Rightarrow> state \<times> outcome" where
  "exit_error message st = (emit (Stderr (''ERROR: '' @ message @ nl)) st, Exit 1)"

text \<open>A successful \<^verbatim>\<open>open(path, "w")\<close> followed by the writes of \<open>text\<close>.\<close>

definition write_file :: "string \<Rightarrow> string \<Rightarrow> state \<Rightarrow> state" where
  "write_file path text st =
     st\<lparr>world := (world st)\<lparr>files := (files (world st))(path \<mapsto> text)\<rparr>\<rparr>"

definition run_system :: "env \<Rightarrow> string \<Rightarrow> state \<Rightarrow> state" where
  "run_system e cmd st = emit (System cmd) (st\<lparr>world := os_system e cmd (world st)\<rparr>)"

text \<open>\<^verbatim>\<open>xs[i]\<close> with Python's negative indices; \<open>None\<close> for \<^verbatim>\<open>IndexError\<close>.\<close>

definition py_nth :: "'a list \<Rightarrow> int \<Rightarrow> 'a option" where
  "py_nth xs i =
     (if 0 \<le> i \<and> i < int (length xs) then Some (xs ! nat i)
      else if - int (length xs) \<le> i \<and> i < 0 then Some (xs ! nat (int (length xs) + i))
      else None)"

subsection \<open>Work out spatial and spectral axes\<close>

text \<open>The body of the loop of lines 148 to 151 for index \<open>i\<close>.\<close>

definition axis_step :: "string list \<Rightarrow> int list \<Rightarrow> nat \<Rightarrow> int list" where
  "axis_step axis_type axes i =
     (let t = axis_type ! i
      in if t = ''RA'' \<or> t = ''GLON'' then axes[0 := int i]
         else if t = ''DEC'' \<or> t = ''GLAT'' then axes[1 := int i]
         else if t = ''FREQ'' \<or> t = ''VELO'' \<or> t = ''VRAD'' \<or> t = ''VOPT'' \<or> t = ''FELO''
              then axes[2 := int i]
         else axes)"

text \<open>\<open>axes\<close> after the iterations \<open>0, \<dots>, n - 1\<close> of the loop.\<close>

primrec axes_after :: "string list \<Rightarrow> nat \<Rightarrow> int list" where
  "axes_after axis_type 0 = [- 1, - 1, - 1]"
| "axes_after axis_type (Suc i) = axis_step axis_type (axes_after axis_type i) i"

text \<open>Line 152: \<open>None\<close> is the fatal exit.\<close>

definition resolve_axes :: "nat \<Rightarrow> string list \<Rightarrow> int list option" where
  "resolve_axes naxes axis_type =
     (let axes = axes_after axis_type naxes
      in if axes ! 0 = - 1 \<or> axes ! 1 = - 1 \<or> axes ! 2 = - 1 then None else Some axes)"

subsection \<open>Read input catalogue\<close>

text \<open>The test of line 162, on the stripped line.\<close>

definition is_data :: "string \<Rightarrow> bool" where
  "is_data line = (line \<noteq> [] \<and> hd line \<noteq> CHR ''#'')"

text \<open>The loop of lines 160 to 168; \<open>None\<close> is the \<^verbatim>\<open>exit_error\<close> of line 165.\<close>

fun read_catalogue ::
  "string list \<Rightarrow> string list list \<Rightarrow> nat \<Rightarrow> (string list list \<times> nat) option" where
  "read_catalogue [] sources n_cols = Some (sources, n_cols)"
| "read_catalogue (l # ls) sources n_cols =
     (let line = strip l
      in if is_data line
         then (let cols = py_split CHR '','' line
               in if n_cols \<noteq> length cols
                  then (if n_cols > 0 then None
                        else read_catalogue ls (sources @ [map strip cols]) (length cols))
                  else read_catalogue ls (sources @ [map strip cols]) n_cols)
         else read_catalogue ls sources n_cols)"

datatype catalogue_error = VariableColumns | NoSources | WrongDimension nat nat

text \<open>Lines 156 to 173 on the lines of a readable catalogue, for a cube of \<open>naxes\<close>
  axes.\<close>

definition load_catalogue :: "string list \<Rightarrow> nat \<Rightarrow> catalogue_error + string list list" where
  "load_catalogue lines naxes =
     (case read_catalogue lines [] 0 of
        None \<Rightarrow> Inl VariableColumns
      | Some (sources, n_cols) \<Rightarrow>
          if length sources = 0 then Inl NoSources
          else if n_cols \<noteq> naxes + 1 then Inl (WrongDimension naxes n_cols)
          else Inr sources)"

text \<open>What each failure puts on standard error. The first \<^verbatim>\<open>exit_error\<close> is called
  inside the \<^verbatim>\<open>try\<close> whose bare \<^verbatim>\<open>except\<close> also catches \<^verbatim>\<open>SystemExit\<close>, so its
  message is followed by the one of line 170.\<close>

definition catalogue_failure :: "string \<Rightarrow> catalogue_error \<Rightarrow> state \<Rightarrow> state \<times> outcome" where
  "catalogue_failure path err st =
     (case err of
        VariableColumns \<Rightarrow>
          exit_error (''Failed to read input catalogue: '' @ path)
            (fst (exit_error ''Variable number of catalogue columns encountered.'' st))
      | NoSources \<Rightarrow> exit_error ''No sources found in input catalogue.'' st
      | WrongDimension naxes n_cols \<Rightarrow>
          exit_error (''Data cube is '' @ str_int (int naxes) @ ''D, but ''
            @ str_int (int n_cols - 1) @ '' coordinate values given in catalogue.'') st)"

subsection \<open>Work out region\<close>

record region =
  x_min :: int
  x_max :: int
  y_min :: int
  y_max :: int
  z_min :: int
  z_max :: int

text \<open>An expression whose evaluation may raise: \<open>Inl\<close> the exception, \<open>Inr\<close> the value.
  \<open>and_then m f\<close> evaluates \<open>m\<close> and, unless it raised, goes on with \<open>f\<close>.\<close>

definition and_then :: "'x + 'a \<Rightarrow> ('a \<Rightarrow> 'x + 'b) \<Rightarrow> 'x + 'b" where
  "and_then m f = (case m of Inl x \<Rightarrow> Inl x | Inr v \<Rightarrow> f v)"

definition subscript :: "'a list \<Rightarrow> int \<Rightarrow> py_exception + 'a" where
  "subscript xs i = (case py_nth xs i of None \<Rightarrow> Inl IndexError | Some v \<Rightarrow> Inr v)"

text \<open>\<^verbatim>\<open>int(math.floor(x))\<close> and \<^verbatim>\<open>int(math.ceil(x))\<close>: exact on a finite double, a
  \<^verbatim>\<open>ValueError\<close> on a NaN and an \<^verbatim>\<open>OverflowError\<close> on an infinity.\<close>

fun int_floor :: "pyfloat \<Rightarrow> py_exception + int" where
  "int_floor (Finite x) = Inr \<lfloor>x\<rfloor>"
| "int_floor NaN = Inl ValueError"
| "int_floor PosInf = Inl OverflowError"
| "int_floor NegInf = Inl OverflowError"

fun int_ceil :: "pyfloat \<Rightarrow> py_exception + int" where
  "int_ceil (Finite x) = Inr \<lceil>x\<rceil>"
| "int_ceil NaN = Inl ValueError"
| "int_ceil PosInf = Inl OverflowError"
| "int_ceil NegInf = Inl OverflowError"

text \<open>The right-hand sides of lines 184 and 185 for one axis: pixel coordinate \<open>pix\<close>,
  radius \<open>radius\<close>, size \<open>extent\<close> of the axis. The difference and the sum are the
  interpreter's.\<close>

definition lower_bound :: "env \<Rightarrow> pyfloat \<Rightarrow> int \<Rightarrow> py_exception + int" where
  "lower_bound e pix radius =
     and_then (float_sub e pix radius) (\<lambda>d. and_then (int_floor d) (\<lambda>f. Inr (max 0 f)))"

definition upper_bound :: "env \<Rightarrow> int \<Rightarrow> pyfloat \<Rightarrow> int \<Rightarrow> py_exception + int" where
  "upper_bound e extent pix radius =
     and_then (float_add e pix radius)
       (\<lambda>s. and_then (int_ceil s) (\<lambda>c. Inr (min (extent - 1) c)))"

text \<open>Lines 184 and 185 for the axis \<open>axis\<close>, in the order of evaluation: the
  coordinate subscript and the lower bound, then the size subscript, the coordinate
  subscript again and the upper bound.\<close>

definition axis_window ::
  "env \<Rightarrow> int list \<Rightarrow> pyfloat list \<Rightarrow> int \<Rightarrow> int \<Rightarrow> py_exception + int \<times> int" where
  "axis_window e axis_size coord_pix axis radius =
     and_then (subscript coord_pix axis) (\<lambda>pix.
     and_then (lower_bound e pix radius) (\<lambda>lo.
     and_then (subscript axis_size axis) (\<lambda>extent.
     and_then (subscript coord_pix axis) (\<lambda>pix'.
     and_then (upper_bound e extent pix' radius) (\<lambda>hi. Inr (lo, hi))))))"

text \<open>Lines 184 to 189: the region, or the first exception raised.\<close>

definition work_out_region ::
  "env \<Rightarrow> int list \<Rightarrow> int list \<Rightarrow> int \<Rightarrow> int \<Rightarrow> pyfloat list \<Rightarrow> py_exception + region" where
  "work_out_region e axis_size axes radius_spat radius_spec coord_pix =
     and_then (axis_window e axis_size coord_pix (axes ! 0) radius_spat) (\<lambda>(xlo, xhi).
     and_then (axis_window e axis_size coord_pix (axes ! 1) radius_spat) (\<lambda>(ylo, yhi).
     and_then (axis_window e axis_size coord_pix (axes ! 2) radius_spec) (\<lambda>(zlo, zhi).
       Inr \<lparr>x_min = xlo, x_max = xhi, y_min = ylo, y_max = yhi,
            z_min = zlo, z_max = zhi\<rparr>)))"

text \<open>The test of line 192.\<close>

definition within_bounds :: "region \<Rightarrow> int \<Rightarrow> int \<Rightarrow> bool" where
  "within_bounds r radius_spat radius_spec =
     (x_max r - x_min r \<ge> radius_spat \<and> y_max r - y_min r \<ge> radius_spat
      \<and> z_max r - z_min r \<ge> radius_spec)"

subsection \<open>Loop over all sources\<close>

definition dq :: string where
  "dq = [CHR 0x22]"

definition tmp_file :: string where
  "tmp_file = ''sofia_optifind_parameter_file.tmp''"

text \<open>Line 196\<close>

definition format_region :: "region \<Rightarrow> string" where
  "format_region r =
     str_int (x_min r) @ '', '' @ str_int (x_max r) @ '', '' @ str_int (y_min r) @ '', ''
     @ str_int (y_max r) @ '', '' @ str_int (z_min r) @ '', '' @ str_int (z_max r)"

text \<open>Line 200\<close>

definition suffix :: "string \<Rightarrow> string" where
  "suffix src0 = ''_'' @ replace CHR ''/'' CHR ''-'' (replace CHR '' '' CHR ''_'' src0)"

text \<open>Lines 202 to 205: the new value of \<^verbatim>\<open>output.filename\<close>; \<open>None\<close> is the
  \<^verbatim>\<open>KeyError\<close> of line 202.\<close>

definition output_filename :: "dict \<Rightarrow> string \<Rightarrow> string option" where
  "output_filename pars_copy src0 =
     (case dict_get pars_copy ''output.filename'' of
        None \<Rightarrow> None
      | Some v \<Rightarrow> Some (if v \<noteq> [] then v @ suffix src0 else ''optifind'' @ suffix src0))"

text \<open>Lines 213 and 214\<close>

definition parameter_text :: "dict \<Rightarrow> string" where
  "parameter_text pars_copy =
     concat (map (\<lambda>(key, v). key @ [CHR 0x09] @ ''='' @ [CHR 0x09] @ v @ nl) pars_copy)"

text \<open>The first source field, \<^verbatim>\<open>src[0]\<close>: every record has one, since \<open>py_split\<close> never
  returns the empty list.\<close>

definition src_id :: "string list \<Rightarrow> string" where
  "src_id src = hd src"

text \<open>Lines 180 to 189: the region of one source, or the exception that ends the
  script.\<close>

definition source_region ::
  "env \<Rightarrow> cube \<Rightarrow> int list \<Rightarrow> int \<Rightarrow> int \<Rightarrow> string list \<Rightarrow> py_exception + region" where
  "source_region e c axes radius_spat radius_spec src =
     (case those (map (py_float e) (tl src)) of
        None \<Rightarrow> Inl ValueError
      | Some coord_wld \<Rightarrow>
          work_out_region e (cube_axis_size c) axes radius_spat radius_spec
            (wcs_world2pix c coord_wld))"

text \<open>Lines 193 to 220: the branch of an accepted region.\<close>

definition run_source ::
  "env \<Rightarrow> string \<Rightarrow> dict \<Rightarrow> string list \<Rightarrow> region \<Rightarrow> string list \<Rightarrow> state
     \<Rightarrow> state \<times> (outcome + string list)" where
  "run_source e sofia_2_executable pars src r cat_names st =
     (let pars_copy = dict_set ''input.region'' (format_region r) pars;
          st1 = print (''Processing source '' @ dq @ src_id src @ dq) st;
          st2 = print (''  Region: '' @ format_region r) st1
      in case output_filename pars_copy (src_id src) of
           None \<Rightarrow> (st2, Inl (Uncaught (KeyError ''output.filename'')))
         | Some name \<Rightarrow>
             (let pars_copy = dict_set ''output.filename'' name pars_copy;
                  cat_names = cat_names @ [name];
                  pars_copy = dict_set ''parameter.offset'' ''true'' pars_copy
              in if \<not> writable (world st2) tmp_file
                 then (let (st3, out) =
                             exit_error (''Failed to write temporary SoFiA 2 parameter file. Is the''
                               @ nl @ ''       current working directory write-protected?'') st2
                       in (st3, Inl out))
                 else (let st3 = write_file tmp_file (parameter_text pars_copy) st2;
                           st4 = run_system e (sofia_2_executable @ '' '' @ tmp_file) st3;
                           st5 = run_system e (''rm -f '' @ tmp_file) st4
                       in (st5, Inr cat_names))))"

text \<open>Line 222: the branch of a rejected region.\<close>

definition skip_source :: "string list \<Rightarrow> state \<Rightarrow> state" where
  "skip_source src st =
     print (''Skipping source '' @ dq @ src_id src @ dq @ '': outside bounds.'') st"

text \<open>The loop of line 178, from the sources still to come, the names collected so far
  and the state reached. It ends with the list \<^verbatim>\<open>cat_names\<close> or with the outcome that
  ended the script.\<close>

fun process_sources ::
  "env \<Rightarrow> cube \<Rightarrow> int list \<Rightarrow> int \<Rightarrow> int \<Rightarrow> string \<Rightarrow> dict \<Rightarrow> string list list
     \<Rightarrow> string list \<Rightarrow> state \<Rightarrow> state \<times> (outcome + string list)" where
  "process_sources e c axes radius_spat radius_spec exe pars [] cat_names st =
     (st, Inr cat_names)"
| "process_sources e c axes radius_spat radius_spec exe pars (src # rest) cat_names st =
     (case source_region e c axes radius_spat radius_spec src of
        Inl x \<Rightarrow> (st, Inl (Uncaught x))
      | Inr r \<Rightarrow>
          if within_bounds r radius_spat radius_spec
          then (case run_source e exe pars src r cat_names st of
                  (st', Inl out) \<Rightarrow> (st', Inl out)
                | (st', Inr cat_names') \<Rightarrow>
                    process_sources e c axes radius_spat radius_spec exe pars rest cat_names' st')
          else process_sources e c axes radius_spat radius_spec exe pars rest cat_names
                 (skip_source src st))"

subsection \<open>Merge output catalogues\<close>

definition merged_name :: string where
  "merged_name = ''optifind_merged_catalogue.txt''"

text \<open>Lines 245 and 246 for the lines of one catalogue, from the header and the content
  collected so far.\<close>

fun merge_lines :: "bool \<Rightarrow> string list \<Rightarrow> string \<Rightarrow> string \<Rightarrow> string \<times> string" where
  "merge_lines need_header [] header content = (header, content)"
| "merge_lines need_header (line # ls) header content =
     merge_lines need_header ls
       (if need_header \<and> line \<noteq> [] \<and> hd line = CHR ''#'' then header @ line else header)
       (if line \<noteq> [] \<and> \<not> isspace line \<and> hd line \<noteq> CHR ''#'' then content @ line
        else content)"

text \<open>The loop of line 240 over the catalogues, each given by its lines.\<close>

fun merge_texts :: "string list list \<Rightarrow> bool \<Rightarrow> string \<Rightarrow> string \<Rightarrow> string \<times> string" where
  "merge_texts [] need_header header content = (header, content)"
| "merge_texts (ls # rest) need_header header content =
     (let (header', content') = merge_lines need_header ls header content
      in merge_texts rest (if need_header \<and> header' \<noteq> [] then False else need_header)
           header' content')"

text \<open>The same loop on the files, which may fail to open: \<open>Inl\<close> the path of the first
  catalogue that cannot be read.\<close>

fun read_catalogues ::
  "world \<Rightarrow> string \<Rightarrow> string list \<Rightarrow> string list list \<Rightarrow> string + string list list" where
  "read_catalogues w output_dir [] acc = Inr acc"
| "read_catalogues w output_dir (item # items) acc =
     (case files w (output_dir @ item @ ''_cat.txt'') of
        None \<Rightarrow> Inl (output_dir @ item @ ''_cat.txt'')
      | Some text \<Rightarrow> read_catalogues w output_dir items (acc @ [py_lines text]))"

text \<open>Lines 226 to 258\<close>

definition merge_catalogues :: "dict \<Rightarrow> string list \<Rightarrow> state \<Rightarrow> state \<times> outcome" where
  "merge_catalogues pars cat_names st =
     (if length cat_names \<noteq> 0
      then (case dict_get pars ''output.directory'' of
              None \<Rightarrow> (st, Uncaught (KeyError ''output.directory''))
            | Some output_dir \<Rightarrow>
                (case dict_get pars ''output.writeCatASCII'' of
                   None \<Rightarrow> (st, Uncaught (KeyError ''output.writeCatASCII''))
                 | Some fmt_plain \<Rightarrow>
                     (let output_dir =
                            (if output_dir \<noteq> [] \<and> last output_dir \<noteq> CHR ''/''
                             then output_dir @ ''/'' else output_dir)
                      in if fmt_plain \<noteq> []
                         then (let st1 = emit (Stdout (''Creating merged ASCII catalogue:'' @ nl
                                           @ ''  '' @ output_dir @ merged_name @ nl)) st
                               in case read_catalogues (world st1) output_dir cat_names [] of
                                    Inl path \<Rightarrow>
                                      exit_error (''Failed to read SoFiA 2 catalogue: '' @ path) st1
                                  | Inr texts \<Rightarrow>
                                      (let (header, content) = merge_texts texts True [] []
                                       in if writable (world st1) (output_dir @ merged_name)
                                          then (write_file (output_dir @ merged_name)
                                                  (header @ nl @ content) st1, Exit 0)
                                          else exit_error (''Failed to write merged output catalogue. Is the''
                                                 @ nl @ ''       current working directory write-protected?'')
                                                 st1))
                         else (st, Exit 0))))
      else (st, Exit 0))"

subsection \<open>The script\<close>

text \<open>Lines 146 to 258, once the cube header has been read.\<close>

definition with_cube ::
  "env \<Rightarrow> int \<Rightarrow> int \<Rightarrow> string \<Rightarrow> dict \<Rightarrow> cube \<Rightarrow> state \<Rightarrow> state \<times> outcome" where
  "with_cube e radius_spat radius_spec exe pars c st =
     (let naxes = length (cube_axis_size c)
      in if length (cube_axis_type c) < naxes then (st, Uncaught IndexError)
         else (case resolve_axes naxes (cube_axis_type c) of
                 None \<Rightarrow>
                   exit_error ''Failed to identify spatial and/or spectral axis of data cube.'' st
               | Some axes \<Rightarrow>
                   (case files (world st) (argv e ! 2) of
                      None \<Rightarrow> exit_error (''Failed to read input catalogue: '' @ argv e ! 2) st
                    | Some text \<Rightarrow>
                        (case load_catalogue (py_lines text) naxes of
                           Inl err \<Rightarrow> catalogue_failure (argv e ! 2) err st
                         | Inr sources \<Rightarrow>
                             (case process_sources e c axes radius_spat radius_spec exe pars
                                     sources [] st of
                                (st', Inl out) \<Rightarrow> (st', out)
                              | (st', Inr cat_names) \<Rightarrow> merge_catalogues pars cat_names st')))))"

text \<open>Lines 105 to 143, then the rest.\<close>

definition optifind :: "env \<Rightarrow> state \<Rightarrow> state \<times> outcome" where
  "optifind e st =
     (if length (argv e) < 5 then (emit Usage st, Exit 0)
      else (case py_int e (argv e ! 3) of
              None \<Rightarrow> (st, Uncaught ValueError)
            | Some radius_spat \<Rightarrow>
                (case py_int e (argv e ! 4) of
                   None \<Rightarrow> (st, Uncaught ValueError)
                 | Some radius_spec \<Rightarrow>
                     (let sofia_2_executable =
                            (if length (argv e) > 5 then argv e ! 5 else ''sofia'')
                      in case files (world st) (argv e ! 1) of
                           None \<Rightarrow> exit_error (''Failed to read parameter file: '' @ argv e ! 1) st
                         | Some text \<Rightarrow>
                             (let pars = read_pars (py_lines text) []
                              in if length pars = 0
                                 then exit_error ''No valid parameter settings found.'' st
                                 else (case Option.bind (dict_get pars ''input.data'') (WCS e) of
                                         None \<Rightarrow>
                                           exit_error ''Failed to read WCS from input data cube.'' st
                                       | Some c \<Rightarrow>
                                           with_cube e radius_spat radius_spec
                                             sofia_2_executable pars c st))))))"

subsection \<open>The region as the specification words it\<close>

text \<open>The specification's reading of lines 184 to 189: both bounds of an axis are
  clamped into the interval from \<open>0\<close> to \<open>extent - 1\<close>. Here \<open>d\<close> and \<open>s\<close> are the finite
  values of \<^verbatim>\<open>pixel - radius\<close> and \<^verbatim>\<open>pixel + radius\<close>.\<close>

definition clamp :: "int \<Rightarrow> int \<Rightarrow> int \<Rightarrow> int" where
  "clamp lo hi v = max lo (min hi v)"

definition clamped_window :: "int \<Rightarrow> real \<Rightarrow> real \<Rightarrow> int \<times> int" where
  "clamped_window extent d s =
     (clamp 0 (extent - 1) \<lfloor>d\<rfloor>, clamp 0 (extent - 1) \<lceil>s\<rceil>)"

subsection \<open>The settings of a parameter file\<close>

text \<open>The lines of a template that line 120 accepts, stripped, in file order, and the
  entry each of them stores.\<close>

definition settings :: "string list \<Rightarrow> string list" where
  "settings lines = filter is_setting (map strip lines)"

definition setting_entry :: "string \<Rightarrow> string \<times> string" where
  "setting_entry line = (setting_key line, setting_value line)"

subsection \<open>The axis vocabularies\<close>

text \<open>The three families of axis type labels that lines 149 to 151 compare with, and
  what it means for \<open>a\<close> to be the index the loop leaves for a family \<open>V\<close> after scanning
  the first \<open>n\<close> labels: \<open>- 1\<close> when no label is in \<open>V\<close>, otherwise the index of the last
  one that is.\<close>

definition spatial1_labels :: "string set" where
  "spatial1_labels = {''RA'', ''GLON''}"

definition spatial2_labels :: "string set" where
  "spatial2_labels = {''DEC'', ''GLAT''}"

definition spectral_labels :: "string set" where
  "spectral_labels = {''FREQ'', ''VELO'', ''VRAD'', ''VOPT'', ''FELO''}"

definition last_match :: "string set \<Rightarrow> string list \<Rightarrow> nat \<Rightarrow> int \<Rightarrow> bool" where
  "last_match V axis_type n a =
     (if \<exists>i<n. axis_type ! i \<in> V
      then 0 \<le> a \<and> nat a < n \<and> axis_type ! nat a \<in> V
           \<and> (\<forall>j. nat a < j \<and> j < n \<longrightarrow> axis_type ! j \<notin> V)
      else a = - 1)"

text \<open>What line 152 puts on standard error.\<close>

definition axis_diagnostic :: event where
  "axis_diagnostic =
     Stderr (''ERROR: Failed to identify spatial and/or spectral axis of data cube.'' @ nl)"

subsection \<open>The data lines of a catalogue\<close>

text \<open>The lines of a catalogue that line 162 accepts, stripped, in file order; the
  number of comma-separated columns of one of them; the record it is stored as.\<close>

definition data_lines :: "string list \<Rightarrow> string list" where
  "data_lines lines = filter is_data (map strip lines)"

definition column_count :: "string \<Rightarrow> nat" where
  "column_count line = length (py_split CHR '','' line)"

definition source_record :: "string \<Rightarrow> string list" where
  "source_record line = map strip (py_split CHR '','' line)"

subsection \<open>Sanitised identifiers and an example run\<close>


text \<open>Float arithmetic without rounding error. Double arithmetic agrees with it
  wherever the operands and the exact result are doubles, as they are for the integers
  and half-integers of small magnitude in the examples below.\<close>

definition exact_sub :: "pyfloat \<Rightarrow> int \<Rightarrow> py_exception + pyfloat" where
  "exact_sub x i = (case x of Finite r \<Rightarrow> Inr (Finite (r - of_int i)) | _ \<Rightarrow> Inr x)"

definition exact_add :: "pyfloat \<Rightarrow> int \<Rightarrow> py_exception + pyfloat" where
  "exact_add x i = (case x of Finite r \<Rightarrow> Inr (Finite (r + of_int i)) | _ \<Rightarrow> Inr x)"

text \<open>A small concrete setting for evaluating the script: a cube with axes RA, DEC,
  FREQ, STOKES of extents 100, 100, 50, 1 whose world coordinates are its pixel
  coordinates, a \<^verbatim>\<open>float\<close> that reads the few literals used below, the arithmetic
  above, a file system without files in which every path is writable, and shell commands
  without effect.\<close>

definition example_cube :: cube where
  "example_cube =
     \<lparr>cube_axis_size = [100, 100, 50, 1],
      cube_axis_type = [''RA'', ''DEC'', ''FREQ'', ''STOKES''],
      wcs_world2pix = (\<lambda>coord. coord)\<rparr>"

definition example_env :: env where
  "example_env =
     \<lparr>argv = [''optifind.py'', ''sofia.par'', ''sources.txt'', ''5'', ''3''],
      py_int = map_of [(''5'', 5), (''3'', 3)],
      py_float = map_of [(''0'', Finite 0), (''1'', Finite 1), (''2'', Finite 2),
                          (''25'', Finite 25), (''50'', Finite 50), (''99'', Finite 99)],
      float_sub = exact_sub,
      float_add = exact_add,
      WCS = map_of [(''cube.fits'', example_cube)],
      os_system = (\<lambda>cmd w. w)\<rparr>"

definition example_state :: state where
  "example_state = \<lparr>world = \<lparr>files = Map.empty, writable = (\<lambda>path. True)\<rparr>, trace = []\<rparr>"

subsection \<open>Accepted and rejected sources\<close>

text \<open>A source is rejected when its region can be computed and fails the test of line
  192, accepted when it can be computed and passes; the line the script prints for a
  rejected source.\<close>

definition rejected :: "env \<Rightarrow> cube \<Rightarrow> int list \<Rightarrow> int \<Rightarrow> int \<Rightarrow> string list \<Rightarrow> bool" where
  "rejected e c axes radius_spat radius_spec src =
     (case source_region e c axes radius_spat radius_spec src of
        Inl x \<Rightarrow> False
      | Inr r \<Rightarrow> \<not> within_bounds r radius_spat radius_spec)"

definition accepted :: "env \<Rightarrow> cube \<Rightarrow> int list \<Rightarrow> int \<Rightarrow> int \<Rightarrow> string list \<Rightarrow> bool" where
  "accepted e c axes radius_spat radius_spec src =
     (case source_region e c axes radius_spat radius_spec src of
        Inl x \<Rightarrow> False
      | Inr r \<Rightarrow> within_bounds r radius_spat radius_spec)"

definition skip_message :: "string list \<Rightarrow> event" where
  "skip_message src =
     Stdout (''Skipping source '' @ dq @ src_id src @ dq @ '': outside bounds.'' @ nl)"

subsection \<open>Header and body lines of a catalogue\<close>

text \<open>The tests of lines 245 and 246 on one line, the text the lines of one catalogue
  contribute under each test, and the header of a merge: the contribution of the first
  catalogue that has one.\<close>

definition is_hash :: "string \<Rightarrow> bool" where
  "is_hash line = (line \<noteq> [] \<and> hd line = CHR ''#'')"

definition is_body :: "string \<Rightarrow> bool" where
  "is_body line = (line \<noteq> [] \<and> \<not> isspace line \<and> hd line \<noteq> CHR ''#'')"

definition hash_text :: "string list \<Rightarrow> string" where
  "hash_text ls = concat (filter is_hash ls)"

definition body_text :: "string list \<Rightarrow> string" where
  "body_text ls = concat (filter is_body ls)"

fun first_header :: "string list list \<Rightarrow> string" where
  "first_header [] = []"
| "first_header (ls # rest) = (if \<exists>l \<in> set ls. is_hash l then hash_text ls else first_header rest)"

text \<open>The specification's reading of the header of one catalogue: its run of leading
  \<open>#\<close> lines.\<close>

definition leading_hash_text :: "string list \<Rightarrow> string" where
  "leading_hash_text ls = concat (takeWhile is_hash ls)"

text \<open>The directory prefix of line 232 and the path of a per-source catalogue.\<close>

definition directory_prefix :: "string \<Rightarrow> string" where
  "directory_prefix output_dir =
     (if output_dir \<noteq> [] \<and> last output_dir \<noteq> CHR ''/'' then output_dir @ ''/''
      else output_dir)"

definition catalogue_path :: "string \<Rightarrow> string \<Rightarrow> string" where
  "catalogue_path dir item = dir @ item @ ''_cat.txt''"

subsection \<open>An example merge\<close>

text \<open>A state whose only file is the catalogue of one run, without header lines.\<close>

definition example_merge_state :: state where
  "example_merge_state =
     \<lparr>world = \<lparr>files = map_of [(''optifind_near_cat.txt'', ''1 2'' @ nl @ nl @ ''3 4'' @ nl)],
               writable = (\<lambda>path. True)\<rparr>,
      trace = []\<rparr>"

subsection \<open>An example run with the text catalogue switched off\<close>

text \<open>The example setting with a template that sets \<^verbatim>\<open>output.writeCatASCII\<close> to
  \<^verbatim>\<open>false\<close> and a catalogue of one source inside the cube.\<close>

definition example_template :: string where
  "example_template =
     ''input.data = cube.fits'' @ nl @ ''output.directory = '' @ nl
     @ ''output.filename = '' @ nl @ ''output.writeCatASCII = false'' @ nl"

definition example_catalogue :: string where
  "example_catalogue = ''near, 1, 2, 25, 0'' @ nl"

definition example_files_state :: state where
  "example_files_state =
     \<lparr>world = \<lparr>files = map_of [(''sofia.par'', example_template),
                                 (''sources.txt'', example_catalogue)],
               writable = (\<lambda>path. True)\<rparr>,
      trace = []\<rparr>"

section \<open>Properties\<close>

subsection \<open>Region and bounds check\<close>

lemma clamped_window_accepted:
  assumes "min (extent - 1) \<lceil>s\<rceil> - max 0 \<lfloor>d\<rfloor> \<ge> radius" "0 \<le> radius"
  shows "clamped_window extent d s = (max 0 \<lfloor>d\<rfloor>, min (extent - 1) \<lceil>s\<rceil>)"
proof -
  define L where "L = \<lfloor>d\<rfloor>"
  define U where "U = \<lceil>s\<rceil>"
  have "min (extent - 1) U - max 0 L \<ge> radius"
    using assms(1) by (simp add: L_def U_def)
  with assms(2) have "max 0 (min (extent - 1) L) = max 0 L"
    and "max 0 (min (extent - 1) U) = min (extent - 1) U"
    by linarith+
  then show ?thesis
    by (simp add: clamped_window_def clamp_def L_def U_def)
qed

lemma axis_window_finite:
  assumes "py_nth coord_pix axis = Some pix" and "py_nth axis_size axis = Some extent"
    and "float_sub e pix radius = Inr (Finite d)"
    and "float_add e pix radius = Inr (Finite s)"
  shows "axis_window e axis_size coord_pix axis radius
           = Inr (max 0 \<lfloor>d\<rfloor>, min (extent - 1) \<lceil>s\<rceil>)"
  using assms
  by (simp add: axis_window_def subscript_def and_then_def lower_bound_def upper_bound_def)

text \<open>Outside the finite case no bound is computed: an exception of the arithmetic is
  passed on, a NaN ends in a \<^verbatim>\<open>ValueError\<close> and an infinity in an
  \<^verbatim>\<open>OverflowError\<close>.\<close>

lemma lower_bound_raises:
  "(float_sub e pix radius = Inl x \<longrightarrow> lower_bound e pix radius = Inl x)
   \<and> (float_sub e pix radius = Inr NaN \<longrightarrow> lower_bound e pix radius = Inl ValueError)
   \<and> (float_sub e pix radius = Inr PosInf \<or> float_sub e pix radius = Inr NegInf \<longrightarrow>
        lower_bound e pix radius = Inl OverflowError)"
  by (auto simp add: lower_bound_def and_then_def)

lemma upper_bound_raises:
  "(float_add e pix radius = Inl x \<longrightarrow> upper_bound e extent pix radius = Inl x)
   \<and> (float_add e pix radius = Inr NaN \<longrightarrow> upper_bound e extent pix radius = Inl ValueError)
   \<and> (float_add e pix radius = Inr PosInf \<or> float_add e pix radius = Inr NegInf \<longrightarrow>
        upper_bound e extent pix radius = Inl OverflowError)"
  by (auto simp add: upper_bound_def and_then_def)

text \<open>
  C1 (as amended). Take a source whose three role axes can be subscripted and for which
  the interpreter's floating-point results of \<open>pixel - radius\<close> and \<open>pixel + radius\<close> are
  finite on each of them; write \<open>d\<close> and \<open>s\<close> for these results, rounding included.
  Then the region has lower bound \<open>max 0 \<lfloor>d\<rfloor>\<close> (clamped from below only) and upper
  bound \<open>min (extent - 1) \<lceil>s\<rceil>\<close> (clamped from above only) on each axis. It is accepted
  if and only if on each of the three axes upper minus lower is at least the radius of
  the axis family; a window exactly equal to the radius is accepted and one unit
  narrower is rejected. Whenever a region is accepted and both radii are non-negative,
  its bounds are the ones clamped into \<open>[0, extent - 1]\<close>.
\<close>

theorem region_accepted_iff:
  assumes "py_nth coord_pix (axes ! 0) = Some px" and "py_nth axis_size (axes ! 0) = Some sx"
    and "py_nth coord_pix (axes ! 1) = Some py" and "py_nth axis_size (axes ! 1) = Some sy"
    and "py_nth coord_pix (axes ! 2) = Some pz" and "py_nth axis_size (axes ! 2) = Some sz"
    and "float_sub e px radius_spat = Inr (Finite xd)"
    and "float_add e px radius_spat = Inr (Finite xs)"
    and "float_sub e py radius_spat = Inr (Finite yd)"
    and "float_add e py radius_spat = Inr (Finite ys)"
    and "float_sub e pz radius_spec = Inr (Finite zd)"
    and "float_add e pz radius_spec = Inr (Finite zs)"
  shows "\<exists>r. work_out_region e axis_size axes radius_spat radius_spec coord_pix = Inr r
    \<and> x_min r = max 0 \<lfloor>xd\<rfloor> \<and> x_max r = min (sx - 1) \<lceil>xs\<rceil>
    \<and> y_min r = max 0 \<lfloor>yd\<rfloor> \<and> y_max r = min (sy - 1) \<lceil>ys\<rceil>
    \<and> z_min r = max 0 \<lfloor>zd\<rfloor> \<and> z_max r = min (sz - 1) \<lceil>zs\<rceil>
    \<and> (within_bounds r radius_spat radius_spec \<longleftrightarrow>
         x_max r - x_min r \<ge> radius_spat \<and> y_max r - y_min r \<ge> radius_spat
         \<and> z_max r - z_min r \<ge> radius_spec)
    \<and> (x_max r - x_min r = radius_spat \<and> y_max r - y_min r = radius_spat
         \<and> z_max r - z_min r = radius_spec \<longrightarrow> within_bounds r radius_spat radius_spec)
    \<and> (x_max r - x_min r = radius_spat - 1 \<or> y_max r - y_min r = radius_spat - 1
         \<or> z_max r - z_min r = radius_spec - 1 \<longrightarrow> \<not> within_bounds r radius_spat radius_spec)
    \<and> (within_bounds r radius_spat radius_spec \<and> 0 \<le> radius_spat \<and> 0 \<le> radius_spec \<longrightarrow>
         (x_min r, x_max r) = clamped_window sx xd xs
         \<and> (y_min r, y_max r) = clamped_window sy yd ys
         \<and> (z_min r, z_max r) = clamped_window sz zd zs)"
proof -
  let ?r = "\<lparr>x_min = max 0 \<lfloor>xd\<rfloor>, x_max = min (sx - 1) \<lceil>xs\<rceil>,
             y_min = max 0 \<lfloor>yd\<rfloor>, y_max = min (sy - 1) \<lceil>ys\<rceil>,
             z_min = max 0 \<lfloor>zd\<rfloor>, z_max = min (sz - 1) \<lceil>zs\<rceil>\<rparr>"
  have reg: "work_out_region e axis_size axes radius_spat radius_spec coord_pix = Inr ?r"
    using assms by (simp add: work_out_region_def axis_window_finite and_then_def)
  have clamped: "within_bounds ?r radius_spat radius_spec \<and> 0 \<le> radius_spat \<and> 0 \<le> radius_spec \<longrightarrow>
         (x_min ?r, x_max ?r) = clamped_window sx xd xs
         \<and> (y_min ?r, y_max ?r) = clamped_window sy yd ys
         \<and> (z_min ?r, z_max ?r) = clamped_window sz zd zs"
    by (simp add: within_bounds_def clamped_window_accepted [where radius = radius_spat]
        clamped_window_accepted [where radius = radius_spec])
  have fields: "x_min ?r = max 0 \<lfloor>xd\<rfloor> \<and> x_max ?r = min (sx - 1) \<lceil>xs\<rceil>
    \<and> y_min ?r = max 0 \<lfloor>yd\<rfloor> \<and> y_max ?r = min (sy - 1) \<lceil>ys\<rceil>
    \<and> z_min ?r = max 0 \<lfloor>zd\<rfloor> \<and> z_max ?r = min (sz - 1) \<lceil>zs\<rceil>"
    by simp
  have bounds: "(within_bounds ?r radius_spat radius_spec \<longleftrightarrow>
         x_max ?r - x_min ?r \<ge> radius_spat \<and> y_max ?r - y_min ?r \<ge> radius_spat
         \<and> z_max ?r - z_min ?r \<ge> radius_spec)
    \<and> (x_max ?r - x_min ?r = radius_spat \<and> y_max ?r - y_min ?r = radius_spat
         \<and> z_max ?r - z_min ?r = radius_spec \<longrightarrow> within_bounds ?r radius_spat radius_spec)
    \<and> (x_max ?r - x_min ?r = radius_spat - 1 \<or> y_max ?r - y_min ?r = radius_spat - 1
         \<or> z_max ?r - z_min ?r = radius_spec - 1 \<longrightarrow> \<not> within_bounds ?r radius_spat radius_spec)"
    unfolding within_bounds_def by linarith
  from reg fields bounds clamped show ?thesis by blast
qed

text \<open>The theorem at a cube of extents 10, 20, 30 with radii 5 and 3, where the
  arithmetic is exact: the spectral window is exactly as wide as the radius and the
  region is accepted.\<close>

theorem region_accepted_iff_witness:
  "work_out_region example_env [10, 20, 30] [0, 1, 2] 5 3 [Finite (7 / 2), Finite 10, Finite 29]
     = Inr \<lparr>x_min = 0, x_max = 9, y_min = 5, y_max = 15, z_min = 26, z_max = 29\<rparr>
   \<and> within_bounds \<lparr>x_min = 0, x_max = 9, y_min = 5, y_max = 15, z_min = 26, z_max = 29\<rparr> 5 3
   \<and> clamped_window 30 26 32 = (26, 29)"
  using region_accepted_iff [where e = example_env and axis_size = "[10, 20, 30]"
      and axes = "[0, 1, 2]" and radius_spat = 5 and radius_spec = 3
      and coord_pix = "[Finite (7 / 2), Finite 10, Finite 29]"
      and px = "Finite (7 / 2)" and sx = 10 and py = "Finite 10" and sy = 20
      and pz = "Finite 29" and sz = 30
      and xd = "- 3 / 2" and xs = "17 / 2" and yd = 5 and ys = 15 and zd = 26 and zs = 32]
  by (simp add: py_nth_def example_env_def exact_sub_def exact_add_def within_bounds_def
      work_out_region_def axis_window_def subscript_def and_then_def lower_bound_def
      upper_bound_def clamped_window_def clamp_def)

text \<open>
  C1 as stated fails: for a pixel coordinate 100 on an axis of extent 10 with radius 0
  (the difference and the sum are both exactly 100) the lower bound is 100, outside
  \<open>[0, 9]\<close>, and the source is rejected, while the bounds clamped into \<open>[0, 9]\<close> are
  both 9 and would pass the check.
\<close>

theorem region_clamp_counterexample:
  "work_out_region example_env [10, 10, 10] [0, 1, 2] 0 0 [Finite 100, Finite 5, Finite 5]
     = Inr \<lparr>x_min = 100, x_max = 9, y_min = 5, y_max = 5, z_min = 5, z_max = 5\<rparr>
   \<and> \<not> (100::int) \<le> 10 - 1
   \<and> \<not> within_bounds \<lparr>x_min = 100, x_max = 9, y_min = 5, y_max = 5, z_min = 5, z_max = 5\<rparr> 0 0
   \<and> clamped_window 10 100 100 = (9, 9)
   \<and> within_bounds \<lparr>x_min = 9, x_max = 9, y_min = 5, y_max = 5, z_min = 5, z_max = 5\<rparr> 0 0"
  by (simp add: work_out_region_def axis_window_def subscript_def and_then_def py_nth_def
      lower_bound_def upper_bound_def example_env_def exact_sub_def exact_add_def
      within_bounds_def clamped_window_def clamp_def)

subsection \<open>Parameter file\<close>

lemma dict_set_new: "k \<notin> fst ` set d \<Longrightarrow> dict_set k v d = d @ [(k, v)]"
  by (induction d) auto

lemma dict_set_keys: "set (map fst (dict_set k v d)) = insert k (set (map fst d))"
  by (induction d) auto

lemma dict_set_distinct: "distinct (map fst d) \<Longrightarrow> distinct (map fst (dict_set k v d))"
  by (induction d) (auto simp: dict_set_keys [simplified])

lemma read_pars_distinct:
  "distinct (map fst pars @ map setting_key (settings lines)) \<Longrightarrow>
   read_pars lines pars = pars @ map setting_entry (settings lines)"
proof (induction lines arbitrary: pars)
  case Nil
  then show ?case by (simp add: settings_def)
next
  case (Cons l ls)
  show ?case
  proof (cases "is_setting (strip l)")
    case True
    with Cons.prems have new: "setting_key (strip l) \<notin> fst ` set pars"
      and d: "distinct (map fst (pars @ [setting_entry (strip l)]) @ map setting_key (settings ls))"
      by (auto simp: settings_def setting_entry_def)
    from Cons.IH [OF d] True new show ?thesis
      by (simp add: settings_def setting_entry_def dict_set_new Let_def)
  next
    case False
    with Cons show ?thesis by (simp add: settings_def)
  qed
qed

lemma read_pars_keys:
  "set (map fst (read_pars lines pars)) = set (map fst pars) \<union> set (map setting_key (settings lines))"
  by (induction lines arbitrary: pars) (auto simp: settings_def Let_def dict_set_keys [simplified])

lemma read_pars_keys_distinct:
  "distinct (map fst pars) \<Longrightarrow> distinct (map fst (read_pars lines pars))"
  by (induction lines arbitrary: pars) (auto simp: Let_def dict_set_distinct)

lemma read_pars_length:
  "length (read_pars lines []) = card (set (map setting_key (settings lines)))"
proof -
  have "distinct (map fst (read_pars lines []))"
    by (rule read_pars_keys_distinct) simp
  then have "card (set (map fst (read_pars lines []))) = length (map fst (read_pars lines []))"
    by (rule distinct_card)
  moreover have "set (map fst (read_pars lines [])) = set (map setting_key (settings lines))"
    using read_pars_keys [of lines "[]"] by simp
  ultimately show ?thesis by simp
qed

lemma dropWhile_id: "xs = [] \<or> \<not> P (hd xs) \<Longrightarrow> dropWhile P xs = xs"
  by (cases xs) auto

lemma dropWhile_hd: "dropWhile P xs = [] \<or> \<not> P (hd (dropWhile P xs))"
  by (induction xs) auto

lemma strip_ends: "strip s = [] \<or> (\<not> is_space (hd (strip s)) \<and> \<not> is_space (last (strip s)))"
proof -
  define d where "d = dropWhile is_space s"
  define b where "b = dropWhile is_space (rev d)"
  have s: "strip s = rev b" by (simp add: strip_def d_def b_def)
  have d: "d = [] \<or> \<not> is_space (hd d)" unfolding d_def by (rule dropWhile_hd)
  have b: "b = [] \<or> \<not> is_space (hd b)" unfolding b_def by (rule dropWhile_hd)
  have "rev d = takeWhile is_space (rev d) @ b" by (simp add: b_def)
  then have "d = rev b @ rev (takeWhile is_space (rev d))"
    by (metis rev_append rev_rev_ident)
  then have "b \<noteq> [] \<Longrightarrow> hd (rev b) = hd d \<and> d \<noteq> []"
    by (metis hd_append2 rev_is_Nil_conv append_is_Nil_conv)
  with d b show ?thesis unfolding s by (cases "b = []") (auto simp: last_rev)
qed

lemma strip_id: "s = [] \<or> (\<not> is_space (hd s) \<and> \<not> is_space (last s)) \<Longrightarrow> strip s = s"
proof (cases "s = []")
  case True
  then show ?thesis by (simp add: strip_def)
next
  case False
  assume "s = [] \<or> (\<not> is_space (hd s) \<and> \<not> is_space (last s))"
  with False have h: "\<not> is_space (hd s)" and l: "\<not> is_space (last s)" by auto
  from h have 1: "dropWhile is_space s = s" by (simp add: dropWhile_id)
  from l False have "\<not> is_space (hd (rev s))" by (simp add: hd_rev)
  then have "dropWhile is_space (rev s) = rev s" by (simp add: dropWhile_id)
  with 1 show ?thesis by (simp add: strip_def)
qed

lemma strip_strip: "strip (strip s) = strip s"
  using strip_ends [of s] by (rule strip_id)

lemma set_strip: "set (strip s) \<subseteq> set s"
proof
  fix x assume "x \<in> set (strip s)"
  then have "x \<in> set (dropWhile is_space (rev (dropWhile is_space s)))"
    by (simp add: strip_def)
  then have "x \<in> set (rev (dropWhile is_space s))" by (rule set_dropWhileD)
  then have "x \<in> set (dropWhile is_space s)" by simp
  then show "x \<in> set s" by (rule set_dropWhileD)
qed

lemma setting_key_trimmed: "strip (setting_key line) = setting_key line"
  by (simp add: setting_key_def strip_strip)

lemma setting_value_trimmed:
  "strip (setting_value line) = setting_value line \<and> CHR ''#'' \<notin> set (setting_value line)"
proof -
  define v where "v = strip (split1_rest CHR ''='' line)"
  have no_hash: "CHR ''#'' \<notin> set (strip (split1_head CHR ''#'' v))"
  proof
    assume "CHR ''#'' \<in> set (strip (split1_head CHR ''#'' v))"
    with set_strip have "CHR ''#'' \<in> set (takeWhile (\<lambda>x. x \<noteq> CHR ''#'') v)"
      unfolding split1_head_def by blast
    then show False by (auto dest: set_takeWhileD)
  qed
  have sv: "setting_value line =
      (if v \<noteq> [] then (if CHR ''#'' \<notin> set v then v else strip (split1_head CHR ''#'' v)) else [])"
    by (simp add: setting_value_def v_def Let_def)
  have vv: "strip v = v" unfolding v_def by (rule strip_strip)
  have e: "strip [] = []" by (simp add: strip_def)
  show ?thesis unfolding sv using no_hash vv e by (simp add: strip_strip)
qed

lemma dict_set_entries: "set (dict_set k v d) \<subseteq> insert (k, v) (set d)"
  by (induction d) auto

lemma read_pars_subset:
  "set (read_pars lines pars) \<subseteq> set pars \<union> setting_entry ` set (settings lines)"
proof (induction lines arbitrary: pars)
  case Nil
  then show ?case by simp
next
  case (Cons l ls)
  show ?case
  proof (cases "is_setting (strip l)")
    case True
    have "set (read_pars ls (dict_set (setting_key (strip l)) (setting_value (strip l)) pars))
        \<subseteq> set (dict_set (setting_key (strip l)) (setting_value (strip l)) pars)
          \<union> setting_entry ` set (settings ls)"
      by (rule Cons.IH)
    also have "\<dots> \<subseteq> insert (setting_entry (strip l)) (set pars) \<union> setting_entry ` set (settings ls)"
      using dict_set_entries [of "setting_key (strip l)" "setting_value (strip l)" pars]
      by (auto simp: setting_entry_def)
    finally show ?thesis using True by (auto simp: settings_def Let_def)
  next
    case False
    with Cons.IH [of pars] show ?thesis by (auto simp: settings_def)
  qed
qed

text \<open>
  C4 (as amended). Loading a template yields one entry per distinct key among its
  well-formed lines (stripped, non-empty, not starting with \<open>#\<close>, containing \<open>=\<close>). When
  the keys of the \<open>N\<close> well-formed lines are pairwise distinct, the mapping has exactly
  \<open>N\<close> entries, in file order, each the key and value of its line. Every stored key
  and value is trimmed, and no stored value contains \<open>#\<close>.
\<close>

theorem read_pars_entries:
  "length (read_pars lines []) = card (setting_key ` set (settings lines))
   \<and> (distinct (map setting_key (settings lines)) \<longrightarrow>
        read_pars lines [] = map setting_entry (settings lines)
        \<and> length (read_pars lines []) = length (settings lines))
   \<and> (\<forall>(k, v) \<in> set (read_pars lines []).
        strip k = k \<and> strip v = v \<and> CHR ''#'' \<notin> set v)"
proof (intro conjI impI)
  show "length (read_pars lines []) = card (setting_key ` set (settings lines))"
    using read_pars_length [of lines] by simp
next
  assume d: "distinct (map setting_key (settings lines))"
  then show eq: "read_pars lines [] = map setting_entry (settings lines)"
    using read_pars_distinct [of "[]" lines] by simp
  then show "length (read_pars lines []) = length (settings lines)" by simp
next
  have "set (read_pars lines []) \<subseteq> setting_entry ` set (settings lines)"
    using read_pars_subset [of lines "[]"] by simp
  then show "\<forall>(k, v) \<in> set (read_pars lines []).
        strip k = k \<and> strip v = v \<and> CHR ''#'' \<notin> set v"
    by (auto simp: setting_entry_def setting_key_trimmed setting_value_trimmed)
qed

text \<open>The theorem at a template with a comment line, a blank line and two settings, one
  with an inline comment and one with a blank value.\<close>

theorem read_pars_entries_witness:
  "read_pars [''# template'' @ nl, nl, ''input.data = cube.fits  # the cube'' @ nl,
              '' output.filename ='' @ nl] []
     = [(''input.data'', ''cube.fits''), (''output.filename'', [])]
   \<and> length (settings [''# template'' @ nl, nl, ''input.data = cube.fits  # the cube'' @ nl,
              '' output.filename ='' @ nl]) = 2"
proof -
  let ?L = "[''# template'' @ nl, nl, ''input.data = cube.fits  # the cube'' @ nl,
             '' output.filename ='' @ nl]"
  have d: "distinct (map setting_key (settings ?L))" by code_simp
  have e: "map setting_entry (settings ?L)
      = [(''input.data'', ''cube.fits''), (''output.filename'', [])]" by code_simp
  have n: "length (settings ?L) = 2" by code_simp
  from read_pars_entries [of ?L] d e n show ?thesis by simp
qed

text \<open>
  C4 as stated fails: a template with two well-formed lines that set the same key
  loads to a mapping with one entry, holding the later value.
\<close>

theorem read_pars_duplicate_counterexample:
  "length (settings [''a=1'' @ nl, ''a = 2'' @ nl]) = 2
   \<and> read_pars [''a=1'' @ nl, ''a = 2'' @ nl] [] = [(''a'', ''2'')]"
  by code_simp

subsection \<open>Axis roles\<close>

lemma labels_disjoint:
  "t \<in> spatial1_labels \<Longrightarrow> t \<notin> spatial2_labels \<and> t \<notin> spectral_labels"
  "t \<in> spatial2_labels \<Longrightarrow> t \<notin> spatial1_labels \<and> t \<notin> spectral_labels"
  "t \<in> spectral_labels \<Longrightarrow> t \<notin> spatial1_labels \<and> t \<notin> spatial2_labels"
  by (auto simp: spatial1_labels_def spatial2_labels_def spectral_labels_def)

lemma axis_step_cases:
  assumes "length axes = 3"
  shows "axis_step axis_type axes i =
    (if axis_type ! i \<in> spatial1_labels then [int i, axes ! 1, axes ! 2]
     else if axis_type ! i \<in> spatial2_labels then [axes ! 0, int i, axes ! 2]
     else if axis_type ! i \<in> spectral_labels then [axes ! 0, axes ! 1, int i]
     else axes)"
proof -
  from assms obtain a b c where axes: "axes = [a, b, c]"
    by (metis (no_types, opaque_lifting) length_0_conv length_Suc_conv numeral_3_eq_3)
  show ?thesis unfolding axes
    by (simp add: axis_step_def Let_def spatial1_labels_def spatial2_labels_def spectral_labels_def)
qed

lemma length_axes_after: "length (axes_after axis_type n) = 3"
  by (induction n) (simp_all add: axis_step_def Let_def)

lemma last_match_0: "last_match V axis_type 0 (- 1)"
  by (simp add: last_match_def)

lemma last_match_hit: "axis_type ! n \<in> V \<Longrightarrow> last_match V axis_type (Suc n) (int n)"
  by (auto simp: last_match_def)

lemma last_match_miss:
  assumes "last_match V axis_type n a" and "axis_type ! n \<notin> V"
  shows "last_match V axis_type (Suc n) a"
proof (cases "\<exists>i<n. axis_type ! i \<in> V")
  case True
  with assms(1) have a: "0 \<le> a" "nat a < n" "axis_type ! nat a \<in> V"
    "\<forall>j. nat a < j \<and> j < n \<longrightarrow> axis_type ! j \<notin> V"
    by (simp_all add: last_match_def)
  from True have ex: "\<exists>i<Suc n. axis_type ! i \<in> V" using less_Suc_eq by auto
  have "\<forall>j. nat a < j \<and> j < Suc n \<longrightarrow> axis_type ! j \<notin> V"
    using a(4) assms(2) less_Suc_eq by auto
  with a ex show ?thesis unfolding last_match_def by (simp add: less_Suc_eq)
next
  case False
  with assms(1) have "a = - 1" by (simp add: last_match_def)
  moreover from False assms(2) have "\<not> (\<exists>i<Suc n. axis_type ! i \<in> V)"
    using less_Suc_eq by auto
  ultimately show ?thesis by (simp add: last_match_def)
qed

lemma axes_after_last_match:
  "last_match spatial1_labels axis_type n (axes_after axis_type n ! 0)
   \<and> last_match spatial2_labels axis_type n (axes_after axis_type n ! 1)
   \<and> last_match spectral_labels axis_type n (axes_after axis_type n ! 2)"
proof (induction n)
  case 0
  show ?case by (simp add: last_match_0)
next
  case (Suc n)
  let ?axes = "axes_after axis_type n"
  have len: "length ?axes = 3" by (rule length_axes_after)
  note step = axis_step_cases [OF len, of axis_type n]
  consider (s1) "axis_type ! n \<in> spatial1_labels"
    | (s2) "axis_type ! n \<in> spatial2_labels"
    | (s3) "axis_type ! n \<in> spectral_labels"
    | (none) "axis_type ! n \<notin> spatial1_labels" "axis_type ! n \<notin> spatial2_labels"
        "axis_type ! n \<notin> spectral_labels"
    by blast
  then show ?case
  proof cases
    case s1
    with labels_disjoint(1) [OF s1] Suc show ?thesis
      by (simp add: step last_match_hit last_match_miss)
  next
    case s2
    with labels_disjoint(2) [OF s2] Suc show ?thesis
      by (simp add: step last_match_hit last_match_miss)
  next
    case s3
    with labels_disjoint(3) [OF s3] Suc show ?thesis
      by (simp add: step last_match_hit last_match_miss)
  next
    case none
    with Suc show ?thesis by (simp add: step last_match_miss)
  qed
qed

lemma last_match_unresolved:
  "last_match V axis_type n a \<Longrightarrow> a = - 1 \<longleftrightarrow> \<not> (\<exists>i<n. axis_type ! i \<in> V)"
  by (auto simp: last_match_def split: if_splits)

text \<open>No other way the script can end leaves the diagnostic of line 152 as the last
  thing on its trace.\<close>

lemma exit_error_other:
  "message \<noteq> ''Failed to identify spatial and/or spectral axis of data cube.'' \<Longrightarrow>
   trace (fst (exit_error message st)) \<noteq> t @ [axis_diagnostic]"
  by (simp add: exit_error_def emit_def axis_diagnostic_def)

lemma catalogue_failure_other:
  "trace (fst (catalogue_failure path err st)) \<noteq> t @ [axis_diagnostic]"
  by (cases err) (simp_all add: catalogue_failure_def exit_error_other)

lemma run_source_other:
  assumes "run_source e exe pars src r names st = (st', Inl (Exit n))"
  shows "trace st' \<noteq> t @ [axis_diagnostic]"
proof -
  let ?st2 = "print (''  Region: '' @ format_region r)
                (print (''Processing source '' @ dq @ src_id src @ dq) st)"
  from assms have "st' = fst (exit_error (''Failed to write temporary SoFiA 2 parameter file. Is the''
                               @ nl @ ''       current working directory write-protected?'') ?st2)"
    by (auto simp add: run_source_def Let_def split: option.splits if_splits prod.splits)
  then show ?thesis by (simp add: exit_error_other)
qed

lemma process_sources_other:
  "process_sources e c axes radius_spat radius_spec exe pars sources names st = (st', Inl (Exit n))
   \<Longrightarrow> trace st' \<noteq> t @ [axis_diagnostic]"
proof (induction sources arbitrary: names st)
  case Nil
  then show ?case by simp
next
  case (Cons src rest)
  show ?case
  proof (cases "source_region e c axes radius_spat radius_spec src")
    case (Inl x)
    with Cons.prems show ?thesis by simp
  next
    case (Inr r)
    show ?thesis
    proof (cases "within_bounds r radius_spat radius_spec")
      case False
      with Inr Cons.prems Cons.IH show ?thesis by simp
    next
      case True
      obtain st1 res where rs: "run_source e exe pars src r names st = (st1, res)"
        by (cases "run_source e exe pars src r names st")
      show ?thesis
      proof (cases res)
        case (Inl out)
        with rs Inr True Cons.prems have "run_source e exe pars src r names st = (st', Inl (Exit n))"
          by simp
        then show ?thesis by (rule run_source_other)
      next
        case (Inr names')
        with rs \<open>source_region e c axes radius_spat radius_spec src = Inr r\<close> True Cons.prems Cons.IH
        show ?thesis by simp
      qed
    qed
  qed
qed

lemma merge_catalogues_other:
  assumes "merge_catalogues pars names st = (st', Exit 1)"
  shows "trace st' \<noteq> t @ [axis_diagnostic]"
  using assms
  by (auto simp add: merge_catalogues_def Let_def exit_error_def emit_def axis_diagnostic_def
      split: option.splits if_splits sum.splits prod.splits)

lemma with_cube_fatal_iff:
  assumes "length (cube_axis_size c) \<le> length (cube_axis_type c)"
  shows "with_cube e radius_spat radius_spec exe pars c st
           = (st\<lparr>trace := trace st @ [axis_diagnostic]\<rparr>, Exit 1)
         \<longleftrightarrow> resolve_axes (length (cube_axis_size c)) (cube_axis_type c) = None"
proof
  assume "resolve_axes (length (cube_axis_size c)) (cube_axis_type c) = None"
  with assms show "with_cube e radius_spat radius_spec exe pars c st
           = (st\<lparr>trace := trace st @ [axis_diagnostic]\<rparr>, Exit 1)"
    by (simp add: with_cube_def Let_def exit_error_def emit_def axis_diagnostic_def)
next
  assume wc: "with_cube e radius_spat radius_spec exe pars c st
           = (st\<lparr>trace := trace st @ [axis_diagnostic]\<rparr>, Exit 1)"
  show "resolve_axes (length (cube_axis_size c)) (cube_axis_type c) = None"
  proof (rule ccontr)
    assume "resolve_axes (length (cube_axis_size c)) (cube_axis_type c) \<noteq> None"
    then obtain axes where ax: "resolve_axes (length (cube_axis_size c)) (cube_axis_type c) = Some axes"
      by blast
    have tr: "trace (fst (with_cube e radius_spat radius_spec exe pars c st))
                = trace st @ [axis_diagnostic]"
      using wc by simp
    show False
    proof (cases "files (world st) (argv e ! 2)")
      case None
      with ax assms tr show False
        by (simp add: with_cube_def Let_def exit_error_other)
    next
      case (Some body)
      show False
      proof (cases "load_catalogue (py_lines body) (length (cube_axis_size c))")
        case (Inl err)
        with ax assms Some tr show False
          by (simp add: with_cube_def Let_def catalogue_failure_other)
      next
        case (Inr sources)
        obtain st1 res where ps: "process_sources e c axes radius_spat radius_spec exe pars
                                     sources [] st = (st1, res)"
          by (cases "process_sources e c axes radius_spat radius_spec exe pars sources [] st")
        show False
        proof (cases res)
          case (Inl out)
          with ax assms Some Inr ps wc have "st1 = st\<lparr>trace := trace st @ [axis_diagnostic]\<rparr>"
            and "out = Exit 1"
            by (simp_all add: with_cube_def Let_def)
          with ps Inl process_sources_other [of e c axes radius_spat radius_spec exe pars sources "[]" st st1 1 "trace st"]
          show False by simp
        next
          case (Inr names)
          with ax assms Some \<open>load_catalogue (py_lines body) (length (cube_axis_size c)) = Inr sources\<close> ps wc
          have "merge_catalogues pars names st1 = (st\<lparr>trace := trace st @ [axis_diagnostic]\<rparr>, Exit 1)"
            by (simp add: with_cube_def Let_def)
          from merge_catalogues_other [OF this, of "trace st"] show False by simp
        qed
      qed
    qed
  qed
qed

text \<open>
  C5. Axis role resolution compares each label, exactly as written, with the three
  fixed vocabularies. It fails exactly when at least one of the three families has no
  label among the scanned axes, and the script then, and only then, ends at line 152:
  it writes the diagnostic of that line to standard error and exits with status 1.
  When resolution succeeds, each role holds the index of the last axis whose label is
  in its family: a later match overwrites an earlier one.
\<close>

theorem resolve_axes_last_match:
  "(resolve_axes naxes axis_type = None \<longleftrightarrow>
      \<not> (\<exists>i<naxes. axis_type ! i \<in> spatial1_labels)
      \<or> \<not> (\<exists>i<naxes. axis_type ! i \<in> spatial2_labels)
      \<or> \<not> (\<exists>i<naxes. axis_type ! i \<in> spectral_labels))
   \<and> (\<forall>axes. resolve_axes naxes axis_type = Some axes \<longrightarrow>
        length axes = 3
        \<and> last_match spatial1_labels axis_type naxes (axes ! 0)
        \<and> last_match spatial2_labels axis_type naxes (axes ! 1)
        \<and> last_match spectral_labels axis_type naxes (axes ! 2))
   \<and> (\<forall>e radius_spat radius_spec exe pars c st.
        cube_axis_type c = axis_type \<and> length (cube_axis_size c) = naxes
        \<and> naxes \<le> length axis_type \<longrightarrow>
        (with_cube e radius_spat radius_spec exe pars c st
           = (st\<lparr>trace := trace st @ [axis_diagnostic]\<rparr>, Exit 1)
         \<longleftrightarrow> resolve_axes naxes axis_type = None))"
proof -
  let ?axes = "axes_after axis_type naxes"
  note lm = axes_after_last_match [of axis_type naxes]
  have "resolve_axes naxes axis_type = None \<longleftrightarrow> ?axes ! 0 = - 1 \<or> ?axes ! 1 = - 1 \<or> ?axes ! 2 = - 1"
    by (simp add: resolve_axes_def Let_def)
  also have "\<dots> \<longleftrightarrow> \<not> (\<exists>i<naxes. axis_type ! i \<in> spatial1_labels)
      \<or> \<not> (\<exists>i<naxes. axis_type ! i \<in> spatial2_labels)
      \<or> \<not> (\<exists>i<naxes. axis_type ! i \<in> spectral_labels)"
    using lm last_match_unresolved by blast
  finally have 1: "resolve_axes naxes axis_type = None \<longleftrightarrow>
      \<not> (\<exists>i<naxes. axis_type ! i \<in> spatial1_labels)
      \<or> \<not> (\<exists>i<naxes. axis_type ! i \<in> spatial2_labels)
      \<or> \<not> (\<exists>i<naxes. axis_type ! i \<in> spectral_labels)" .
  have 2: "\<forall>axes. resolve_axes naxes axis_type = Some axes \<longrightarrow>
        length axes = 3
        \<and> last_match spatial1_labels axis_type naxes (axes ! 0)
        \<and> last_match spatial2_labels axis_type naxes (axes ! 1)
        \<and> last_match spectral_labels axis_type naxes (axes ! 2)"
    using lm length_axes_after [of axis_type naxes]
    by (auto simp: resolve_axes_def Let_def split: if_splits)
  have 3: "\<forall>e radius_spat radius_spec exe pars c st.
        cube_axis_type c = axis_type \<and> length (cube_axis_size c) = naxes
        \<and> naxes \<le> length axis_type \<longrightarrow>
        (with_cube e radius_spat radius_spec exe pars c st
           = (st\<lparr>trace := trace st @ [axis_diagnostic]\<rparr>, Exit 1)
         \<longleftrightarrow> resolve_axes naxes axis_type = None)"
  proof (intro allI impI)
    fix e radius_spat radius_spec exe pars st and c :: cube
    assume "cube_axis_type c = axis_type \<and> length (cube_axis_size c) = naxes
        \<and> naxes \<le> length axis_type"
    then show "with_cube e radius_spat radius_spec exe pars c st
           = (st\<lparr>trace := trace st @ [axis_diagnostic]\<rparr>, Exit 1)
         \<longleftrightarrow> resolve_axes naxes axis_type = None"
      using with_cube_fatal_iff [of c e radius_spat radius_spec exe pars st] by auto
  qed
  from 1 2 3 show ?thesis by blast
qed

text \<open>The theorem at a cube with axes RA, GLON, DEC, FREQ, where the second axis wins
  the first spatial role, and at a cube whose first label is the lower-case \<open>ra\<close>, which
  matches no vocabulary: there the script ends with the diagnostic.\<close>

theorem resolve_axes_last_match_witness:
  "resolve_axes 4 [''RA'', ''GLON'', ''DEC'', ''FREQ''] = Some [1, 2, 3]
   \<and> last_match spatial1_labels [''RA'', ''GLON'', ''DEC'', ''FREQ''] 4 1
   \<and> resolve_axes 3 [''ra'', ''DEC'', ''FREQ''] = None
   \<and> \<not> (\<exists>i<3. [''ra'', ''DEC'', ''FREQ''] ! i \<in> spatial1_labels)
   \<and> with_cube example_env 5 3 ''sofia'' []
        \<lparr>cube_axis_size = [100, 100, 50], cube_axis_type = [''ra'', ''DEC'', ''FREQ''],
         wcs_world2pix = (\<lambda>coord. coord)\<rparr> example_state
      = (example_state\<lparr>trace := [axis_diagnostic]\<rparr>, Exit 1)"
proof -
  let ?c = "\<lparr>cube_axis_size = [100, 100, 50], cube_axis_type = [''ra'', ''DEC'', ''FREQ''],
             wcs_world2pix = (\<lambda>coord. coord)\<rparr>"
  have a: "resolve_axes 4 [''RA'', ''GLON'', ''DEC'', ''FREQ''] = Some [1, 2, 3]"
    by code_simp
  have b: "resolve_axes 3 [''ra'', ''DEC'', ''FREQ''] = None"
    by code_simp
  have c: "\<not> (\<exists>i<3. [''ra'', ''DEC'', ''FREQ''] ! i \<in> spatial1_labels)"
    unfolding numeral_3_eq_3 not_ex by (simp add: All_less_Suc spatial1_labels_def)
  from resolve_axes_last_match [of 4 "[''RA'', ''GLON'', ''DEC'', ''FREQ'']"] a
  have d: "last_match spatial1_labels [''RA'', ''GLON'', ''DEC'', ''FREQ''] 4 ([1, 2, 3] ! 0)"
    by blast
  have "cube_axis_type ?c = [''ra'', ''DEC'', ''FREQ''] \<and> length (cube_axis_size ?c) = 3
        \<and> (3::nat) \<le> length [''ra'', ''DEC'', ''FREQ'']"
    by simp
  with resolve_axes_last_match [of 3 "[''ra'', ''DEC'', ''FREQ'']"] b
  have "with_cube example_env 5 3 ''sofia'' [] ?c example_state
          = (example_state\<lparr>trace := trace example_state @ [axis_diagnostic]\<rparr>, Exit 1)"
    by blast
  then have e: "with_cube example_env 5 3 ''sofia'' [] ?c example_state
          = (example_state\<lparr>trace := [axis_diagnostic]\<rparr>, Exit 1)"
    by (simp add: example_state_def)
  from a b c d e show ?thesis by simp
qed

subsection \<open>Source catalogue\<close>

lemma py_split_nonempty: "py_split c s \<noteq> []"
  by (induction s) (auto split: list.splits)

lemma column_count_pos: "0 < column_count line"
  by (simp add: column_count_def py_split_nonempty)

lemma read_catalogue_fixed:
  "0 < n_cols \<Longrightarrow>
   read_catalogue lines sources n_cols =
     (if \<forall>l \<in> set (data_lines lines). column_count l = n_cols
      then Some (sources @ map source_record (data_lines lines), n_cols) else None)"
proof (induction lines arbitrary: sources)
  case Nil
  then show ?case by (simp add: data_lines_def)
next
  case (Cons l ls)
  show ?case
  proof (cases "is_data (strip l)")
    case True
    then have dl: "data_lines (l # ls) = strip l # data_lines ls"
      by (simp add: data_lines_def)
    show ?thesis
    proof (cases "n_cols = column_count (strip l)")
      case True
      with \<open>is_data (strip l)\<close> Cons.IH [OF Cons.prems, of "sources @ [source_record (strip l)]"]
      show ?thesis
        by (simp add: dl Let_def column_count_def source_record_def)
    next
      case False
      with \<open>is_data (strip l)\<close> Cons.prems show ?thesis
        by (auto simp: dl Let_def column_count_def)
    qed
  next
    case False
    then have "data_lines (l # ls) = data_lines ls" by (simp add: data_lines_def)
    with False Cons.IH [OF Cons.prems, of sources] show ?thesis by simp
  qed
qed

lemma read_catalogue_start:
  "read_catalogue lines sources 0 =
     (case data_lines lines of
        [] \<Rightarrow> Some (sources, 0)
      | d # ds \<Rightarrow>
          if \<forall>l \<in> set ds. column_count l = column_count d
          then Some (sources @ map source_record (d # ds), column_count d) else None)"
proof (induction lines)
  case Nil
  then show ?case by (simp add: data_lines_def)
next
  case (Cons l ls)
  show ?case
  proof (cases "is_data (strip l)")
    case True
    then have dl: "data_lines (l # ls) = strip l # data_lines ls"
      by (simp add: data_lines_def)
    have pos: "0 < column_count (strip l)" by (rule column_count_pos)
    have "read_catalogue (l # ls) sources 0 =
        read_catalogue ls (sources @ [source_record (strip l)]) (column_count (strip l))"
      using True pos by (simp add: Let_def column_count_def source_record_def)
    also have "\<dots> = (if \<forall>x \<in> set (data_lines ls). column_count x = column_count (strip l)
        then Some ((sources @ [source_record (strip l)]) @ map source_record (data_lines ls),
                   column_count (strip l)) else None)"
      by (rule read_catalogue_fixed [OF pos])
    finally show ?thesis by (simp add: dl)
  next
    case False
    then have "data_lines (l # ls) = data_lines ls" by (simp add: data_lines_def)
    with False Cons.IH show ?thesis by simp
  qed
qed

lemma load_catalogue_eq:
  "load_catalogue lines naxes =
     (case data_lines lines of
        [] \<Rightarrow> Inl NoSources
      | d # ds \<Rightarrow>
          if \<exists>l \<in> set ds. column_count l \<noteq> column_count d then Inl VariableColumns
          else if column_count d \<noteq> naxes + 1 then Inl (WrongDimension naxes (column_count d))
          else Inr (map source_record (d # ds)))"
  by (simp add: load_catalogue_def read_catalogue_start split: list.splits)

lemma catalogue_failure_exit:
  "\<exists>msgs. catalogue_failure path err st = (st\<lparr>trace := trace st @ map Stderr msgs\<rparr>, Exit 1)"
proof (cases err)
  case VariableColumns
  have "catalogue_failure path err st =
      (st\<lparr>trace := trace st @ map Stderr
         [''ERROR: Variable number of catalogue columns encountered.'' @ nl,
          ''ERROR: '' @ (''Failed to read input catalogue: '' @ path) @ nl]\<rparr>, Exit 1)"
    unfolding VariableColumns by (simp add: catalogue_failure_def exit_error_def emit_def)
  then show ?thesis by blast
next
  case NoSources
  have "catalogue_failure path err st =
      (st\<lparr>trace := trace st @ map Stderr [''ERROR: No sources found in input catalogue.'' @ nl]\<rparr>, Exit 1)"
    unfolding NoSources by (simp add: catalogue_failure_def exit_error_def emit_def)
  then show ?thesis by blast
next
  case (WrongDimension a b)
  have "catalogue_failure path err st =
      (st\<lparr>trace := trace st @ map Stderr [''ERROR: '' @ (''Data cube is '' @ str_int (int a) @ ''D, but ''
            @ str_int (int b - 1) @ '' coordinate values given in catalogue.'') @ nl]\<rparr>, Exit 1)"
    unfolding WrongDimension by (simp add: catalogue_failure_def exit_error_def emit_def)
  then show ?thesis by blast
qed

text \<open>
  C6. Loading a readable catalogue for a cube of \<open>naxes\<close> axes is fatal exactly when
  some data line has a column count different from the first data line's, or that
  column count is not \<open>naxes + 1\<close>, or there is no data line. Otherwise it yields the
  records of all data lines in file order, every field trimmed. A fatal catalogue ends
  the script with exit code 1 and changes nothing but standard error: no source is
  processed.
\<close>

theorem load_catalogue_fatal_iff:
  "((\<exists>err. load_catalogue lines naxes = Inl err) \<longleftrightarrow>
      (\<exists>l \<in> set (data_lines lines). column_count l \<noteq> column_count (hd (data_lines lines)))
      \<or> column_count (hd (data_lines lines)) \<noteq> naxes + 1
      \<or> data_lines lines = [])
   \<and> ((\<forall>err. load_catalogue lines naxes \<noteq> Inl err) \<longrightarrow>
        load_catalogue lines naxes = Inr (map source_record (data_lines lines)))
   \<and> (\<forall>err. load_catalogue lines naxes = Inl err \<longrightarrow>
        (\<exists>msgs. catalogue_failure path err st
           = (st\<lparr>trace := trace st @ map Stderr msgs\<rparr>, Exit 1)))
   \<and> (\<forall>e c axes text r1 r2 exe pars.
        resolve_axes (length (cube_axis_size c)) (cube_axis_type c) = Some axes
        \<and> length (cube_axis_size c) \<le> length (cube_axis_type c)
        \<and> naxes = length (cube_axis_size c)
        \<and> files (world st) (argv e ! 2) = Some text \<and> lines = py_lines text \<longrightarrow>
        (\<forall>err. load_catalogue lines naxes = Inl err \<longrightarrow>
           with_cube e r1 r2 exe pars c st = catalogue_failure (argv e ! 2) err st))"
proof (intro conjI)
  show "(\<exists>err. load_catalogue lines naxes = Inl err) \<longleftrightarrow>
      (\<exists>l \<in> set (data_lines lines). column_count l \<noteq> column_count (hd (data_lines lines)))
      \<or> column_count (hd (data_lines lines)) \<noteq> naxes + 1
      \<or> data_lines lines = []"
    by (cases "data_lines lines") (auto simp: load_catalogue_eq)
  show "(\<forall>err. load_catalogue lines naxes \<noteq> Inl err) \<longrightarrow>
        load_catalogue lines naxes = Inr (map source_record (data_lines lines))"
    by (cases "data_lines lines") (auto simp: load_catalogue_eq split: if_splits)
  show "\<forall>err. load_catalogue lines naxes = Inl err \<longrightarrow>
        (\<exists>msgs. catalogue_failure path err st
           = (st\<lparr>trace := trace st @ map Stderr msgs\<rparr>, Exit 1))"
    using catalogue_failure_exit by blast
  show "\<forall>e c axes text r1 r2 exe pars.
        resolve_axes (length (cube_axis_size c)) (cube_axis_type c) = Some axes
        \<and> length (cube_axis_size c) \<le> length (cube_axis_type c)
        \<and> naxes = length (cube_axis_size c)
        \<and> files (world st) (argv e ! 2) = Some text \<and> lines = py_lines text \<longrightarrow>
        (\<forall>err. load_catalogue lines naxes = Inl err \<longrightarrow>
           with_cube e r1 r2 exe pars c st = catalogue_failure (argv e ! 2) err st)"
    by (auto simp: with_cube_def Let_def)
qed

text \<open>The theorem at a well-formed catalogue for a cube of three axes and at one that
  mixes a row of four fields with a row of three.\<close>

theorem load_catalogue_fatal_iff_witness:
  "load_catalogue (py_lines (''# id, ra, dec, freq'' @ nl @ ''a, 1, 2, 3'' @ nl @ nl
       @ '' b ,4, 5 ,6'' @ nl)) 3
     = Inr [[''a'', ''1'', ''2'', ''3''], [''b'', ''4'', ''5'', ''6'']]
   \<and> load_catalogue (py_lines (''a, 1, 2, 3'' @ nl @ ''b, 4, 5'' @ nl)) 3 = Inl VariableColumns
   \<and> (\<exists>l \<in> set (data_lines (py_lines (''a, 1, 2, 3'' @ nl @ ''b, 4, 5'' @ nl))).
         column_count l
           \<noteq> column_count (hd (data_lines (py_lines (''a, 1, 2, 3'' @ nl @ ''b, 4, 5'' @ nl)))))"
proof -
  let ?good = "py_lines (''# id, ra, dec, freq'' @ nl @ ''a, 1, 2, 3'' @ nl @ nl
       @ '' b ,4, 5 ,6'' @ nl)"
  let ?bad = "py_lines (''a, 1, 2, 3'' @ nl @ ''b, 4, 5'' @ nl)"
  have good: "load_catalogue ?good 3
      = Inr [[''a'', ''1'', ''2'', ''3''], [''b'', ''4'', ''5'', ''6'']]"
    by code_simp
  have bad: "load_catalogue ?bad 3 = Inl VariableColumns"
    by code_simp
  have first: "column_count (hd (data_lines ?bad)) = 3 + 1" "data_lines ?bad \<noteq> []"
    by code_simp+
  from load_catalogue_fatal_iff [of ?bad 3] bad first
  have "\<exists>l \<in> set (data_lines ?bad). column_count l \<noteq> column_count (hd (data_lines ?bad))"
    by auto
  with good bad show ?thesis by blast
qed

subsection \<open>Output file name\<close>

lemma dict_get_set: "dict_get (dict_set k v d) k' = (if k' = k then Some v else dict_get d k')"
  unfolding dict_get_def by (induction d) auto







subsection \<open>Per-source loop\<close>

lemma skip_source_eq: "skip_source src st = st\<lparr>trace := trace st @ [skip_message src]\<rparr>"
  by (simp add: skip_source_def skip_message_def print_def emit_def)

lemma process_sources_skip:
  assumes "rejected e c axes radius_spat radius_spec src"
  shows "process_sources e c axes radius_spat radius_spec exe pars (src # rest) cat_names st =
         process_sources e c axes radius_spat radius_spec exe pars rest cat_names
           (st\<lparr>trace := trace st @ [skip_message src]\<rparr>)"
  using assms by (simp add: rejected_def skip_source_eq split: sum.splits)

lemma process_sources_skip_prefix:
  assumes "\<forall>src \<in> set pre. rejected e c axes radius_spat radius_spec src"
  shows "process_sources e c axes radius_spat radius_spec exe pars (pre @ rest) cat_names st =
         process_sources e c axes radius_spat radius_spec exe pars rest cat_names
           (st\<lparr>trace := trace st @ map skip_message pre\<rparr>)"
  using assms
proof (induction pre arbitrary: st)
  case Nil
  then show ?case by simp
next
  case (Cons src pre)
  then have r: "rejected e c axes radius_spat radius_spec src"
    and rs: "\<forall>s \<in> set pre. rejected e c axes radius_spat radius_spec s"
    by simp_all
  show ?case
    using process_sources_skip [OF r, of exe pars "pre @ rest" cat_names st]
      Cons.IH [OF rs, of "st\<lparr>trace := trace st @ [skip_message src]\<rparr>"]
    by simp
qed

text \<open>
  C8. A source whose region is rejected is skipped and nothing else: the loop goes on
  with the remaining sources from the same list of catalogue names and from a state
  that differs only by the skip message on standard output, so no command is run, no
  file is written and no name is recorded. A catalogue whose sources are all rejected
  ends the loop with the names it started from.
\<close>

theorem rejected_source_skipped:
  "(rejected e c axes radius_spat radius_spec src \<longrightarrow>
      process_sources e c axes radius_spat radius_spec exe pars (src # rest) cat_names st =
      process_sources e c axes radius_spat radius_spec exe pars rest cat_names
        (st\<lparr>trace := trace st @ [skip_message src]\<rparr>))
   \<and> ((\<forall>s \<in> set sources. rejected e c axes radius_spat radius_spec s) \<longrightarrow>
      process_sources e c axes radius_spat radius_spec exe pars sources cat_names st =
        (st\<lparr>trace := trace st @ map skip_message sources\<rparr>, Inr cat_names))"
proof (intro conjI impI)
  assume "rejected e c axes radius_spat radius_spec src"
  then show "process_sources e c axes radius_spat radius_spec exe pars (src # rest) cat_names st =
      process_sources e c axes radius_spat radius_spec exe pars rest cat_names
        (st\<lparr>trace := trace st @ [skip_message src]\<rparr>)"
    by (rule process_sources_skip)
next
  assume "\<forall>s \<in> set sources. rejected e c axes radius_spat radius_spec s"
  from process_sources_skip_prefix [OF this, of exe pars "[]" cat_names st]
  show "process_sources e c axes radius_spat radius_spec exe pars sources cat_names st =
        (st\<lparr>trace := trace st @ map skip_message sources\<rparr>, Inr cat_names)"
    by simp
qed

lemma example_far_rejected:
  "rejected example_env example_cube [0, 1, 2] 5 3 [''far'', ''50'', ''50'', ''99'', ''0'']"
  by (simp add: rejected_def source_region_def example_env_def example_cube_def
      exact_sub_def exact_add_def work_out_region_def axis_window_def subscript_def
      and_then_def py_nth_def lower_bound_def upper_bound_def within_bounds_def)

lemma example_near_accepted:
  "accepted example_env example_cube [0, 1, 2] 5 3 [''near'', ''1'', ''2'', ''25'', ''0'']"
  by (simp add: accepted_def source_region_def example_env_def example_cube_def
      exact_sub_def exact_add_def work_out_region_def axis_window_def subscript_def
      and_then_def py_nth_def lower_bound_def upper_bound_def within_bounds_def)

text \<open>The theorem at a source beyond the last channel of the example cube.\<close>

theorem rejected_source_skipped_witness:
  "process_sources example_env example_cube [0, 1, 2] 5 3 ''sofia'' []
     [[''far'', ''50'', ''50'', ''99'', ''0'']] [] example_state
   = (example_state\<lparr>trace := [skip_message [''far'', ''50'', ''50'', ''99'', ''0'']]\<rparr>, Inr [])
   \<and> skip_message [''far'', ''50'', ''50'', ''99'', ''0'']
       = Stdout (''Skipping source '' @ dq @ ''far'' @ dq @ '': outside bounds.'' @ nl)"
proof -
  have t: "trace example_state = []" by (simp add: example_state_def)
  from rejected_source_skipped [of example_env example_cube "[0, 1, 2]" 5 3
      "[''far'', ''50'', ''50'', ''99'', ''0'']" "''sofia''" "[]" "[]" "[]" example_state
      "[[''far'', ''50'', ''50'', ''99'', ''0'']]"]
    example_far_rejected t
  show ?thesis by (simp add: skip_message_def src_id_def)
qed

lemma process_sources_key_error:
  assumes "dict_get pars ''output.filename'' = None"
    and "source_region e c axes radius_spat radius_spec src = Inr r"
    and "within_bounds r radius_spat radius_spec"
  shows "process_sources e c axes radius_spat radius_spec exe pars (src # rest) cat_names st =
         (st\<lparr>trace := trace st @
              [Stdout (''Processing source '' @ dq @ src_id src @ dq @ nl),
               Stdout (''  Region: '' @ format_region r @ nl)]\<rparr>,
          Inl (Uncaught (KeyError ''output.filename'')))"
proof -
  have "output_filename (dict_set ''input.region'' (format_region r) pars) (src_id src) = None"
    using assms(1) by (simp add: output_filename_def dict_get_set)
  then have "run_source e exe pars src r cat_names st =
      (st\<lparr>trace := trace st @
              [Stdout (''Processing source '' @ dq @ src_id src @ dq @ nl),
               Stdout (''  Region: '' @ format_region r @ nl)]\<rparr>,
       Inl (Uncaught (KeyError ''output.filename'')))"
    by (simp add: run_source_def Let_def print_def emit_def)
  with assms(2,3) show ?thesis by simp
qed

text \<open>
  C9. If the template has no \<^verbatim>\<open>output.filename\<close>, the loop ends at the first accepted
  source with an uncaught \<^verbatim>\<open>KeyError\<close>, after the lines for the sources skipped before
  it and the two lines announcing the source. If at least one run was recorded and
  the template has no \<^verbatim>\<open>output.directory\<close>, or has it but has no
  \<^verbatim>\<open>output.writeCatASCII\<close>, the merge ends with an uncaught \<^verbatim>\<open>KeyError\<close> and no
  other effect. In each case the outcome is the uncaught exception: nothing is written
  to standard error by \<^verbatim>\<open>exit_error\<close> and the exit is not the one of a fatal error.
\<close>

theorem missing_key_uncaught:
  "(dict_get pars ''output.filename'' = None
      \<and> (\<forall>s \<in> set pre. rejected e c axes radius_spat radius_spec s)
      \<and> accepted e c axes radius_spat radius_spec src \<longrightarrow>
      (\<exists>r. source_region e c axes radius_spat radius_spec src = Inr r
         \<and> process_sources e c axes radius_spat radius_spec exe pars (pre @ src # rest)
              cat_names st =
             (st\<lparr>trace := trace st @ map skip_message pre @
                  [Stdout (''Processing source '' @ dq @ src_id src @ dq @ nl),
                   Stdout (''  Region: '' @ format_region r @ nl)]\<rparr>,
              Inl (Uncaught (KeyError ''output.filename'')))))
   \<and> (names \<noteq> [] \<and> dict_get pars ''output.directory'' = None \<longrightarrow>
        merge_catalogues pars names st = (st, Uncaught (KeyError ''output.directory'')))
   \<and> (names \<noteq> [] \<and> dict_get pars ''output.directory'' = Some d
        \<and> dict_get pars ''output.writeCatASCII'' = None \<longrightarrow>
        merge_catalogues pars names st = (st, Uncaught (KeyError ''output.writeCatASCII'')))"
proof (intro conjI impI)
  assume a: "dict_get pars ''output.filename'' = None
      \<and> (\<forall>s \<in> set pre. rejected e c axes radius_spat radius_spec s)
      \<and> accepted e c axes radius_spat radius_spec src"
  then obtain r where r: "source_region e c axes radius_spat radius_spec src = Inr r"
    and w: "within_bounds r radius_spat radius_spec"
    by (auto simp: accepted_def split: sum.splits)
  from a have pre: "\<forall>s \<in> set pre. rejected e c axes radius_spat radius_spec s"
    and k: "dict_get pars ''output.filename'' = None" by simp_all
  have "process_sources e c axes radius_spat radius_spec exe pars (pre @ src # rest) cat_names st =
      process_sources e c axes radius_spat radius_spec exe pars (src # rest) cat_names
        (st\<lparr>trace := trace st @ map skip_message pre\<rparr>)"
    by (rule process_sources_skip_prefix [OF pre])
  also have "\<dots> = (st\<lparr>trace := trace st @ map skip_message pre @
                  [Stdout (''Processing source '' @ dq @ src_id src @ dq @ nl),
                   Stdout (''  Region: '' @ format_region r @ nl)]\<rparr>,
              Inl (Uncaught (KeyError ''output.filename'')))"
    using process_sources_key_error [OF k r w, of exe rest cat_names
        "st\<lparr>trace := trace st @ map skip_message pre\<rparr>"]
    by simp
  finally show "\<exists>r. source_region e c axes radius_spat radius_spec src = Inr r
         \<and> process_sources e c axes radius_spat radius_spec exe pars (pre @ src # rest)
              cat_names st =
             (st\<lparr>trace := trace st @ map skip_message pre @
                  [Stdout (''Processing source '' @ dq @ src_id src @ dq @ nl),
                   Stdout (''  Region: '' @ format_region r @ nl)]\<rparr>,
              Inl (Uncaught (KeyError ''output.filename'')))"
    using r by blast
next
  assume "names \<noteq> [] \<and> dict_get pars ''output.directory'' = None"
  then show "merge_catalogues pars names st = (st, Uncaught (KeyError ''output.directory''))"
    by (simp add: merge_catalogues_def)
next
  assume "names \<noteq> [] \<and> dict_get pars ''output.directory'' = Some d
        \<and> dict_get pars ''output.writeCatASCII'' = None"
  then show "merge_catalogues pars names st = (st, Uncaught (KeyError ''output.writeCatASCII''))"
    by (simp add: merge_catalogues_def)
qed

text \<open>The theorem at a template with only \<^verbatim>\<open>input.data\<close>, one rejected and one accepted
  source, and at merges with one recorded run.\<close>

theorem missing_key_uncaught_witness:
  "snd (process_sources example_env example_cube [0, 1, 2] 5 3 ''sofia''
          [(''input.data'', ''cube.fits'')]
          [[''far'', ''50'', ''50'', ''99'', ''0''], [''near'', ''1'', ''2'', ''25'', ''0'']]
          [] example_state)
     = Inl (Uncaught (KeyError ''output.filename''))
   \<and> merge_catalogues [(''output.filename'', [])] [''optifind_near''] example_state
       = (example_state, Uncaught (KeyError ''output.directory''))
   \<and> merge_catalogues [(''output.directory'', [])] [''optifind_near''] example_state
       = (example_state, Uncaught (KeyError ''output.writeCatASCII''))"
proof -
  have k: "dict_get [(''input.data'', ''cube.fits'')] ''output.filename'' = None"
    by (simp add: dict_get_def)
  have pre: "\<forall>s \<in> set [[''far'', ''50'', ''50'', ''99'', ''0'']].
      rejected example_env example_cube [0, 1, 2] 5 3 s"
    using example_far_rejected by simp
  from missing_key_uncaught [where pars = "[(''input.data'', ''cube.fits'')]"
      and pre = "[[''far'', ''50'', ''50'', ''99'', ''0'']]" and e = example_env
      and c = example_cube and axes = "[0, 1, 2]" and radius_spat = 5 and radius_spec = 3
      and src = "[''near'', ''1'', ''2'', ''25'', ''0'']" and exe = "''sofia''"
      and rest = "[]" and cat_names = "[]" and st = example_state]
    k pre example_near_accepted
  obtain st' where "process_sources example_env example_cube [0, 1, 2] 5 3 ''sofia''
          [(''input.data'', ''cube.fits'')]
          ([[''far'', ''50'', ''50'', ''99'', ''0'']] @ [''near'', ''1'', ''2'', ''25'', ''0''] # [])
          [] example_state
     = (st', Inl (Uncaught (KeyError ''output.filename'')))"
    by blast
  then have 1: "snd (process_sources example_env example_cube [0, 1, 2] 5 3 ''sofia''
          [(''input.data'', ''cube.fits'')]
          [[''far'', ''50'', ''50'', ''99'', ''0''], [''near'', ''1'', ''2'', ''25'', ''0'']]
          [] example_state)
     = Inl (Uncaught (KeyError ''output.filename''))"
    by (simp del: process_sources.simps)
  have k2: "dict_get [(''output.filename'', [])] ''output.directory'' = None"
    by (simp add: dict_get_def)
  from missing_key_uncaught [where pars = "[(''output.filename'', [])]"
      and names = "[''optifind_near'']" and st = example_state] k2
  have 2: "merge_catalogues [(''output.filename'', [])] [''optifind_near''] example_state
       = (example_state, Uncaught (KeyError ''output.directory''))"
    by blast
  have k3: "dict_get [(''output.directory'', [])] ''output.directory'' = Some []"
    "dict_get [(''output.directory'', [])] ''output.writeCatASCII'' = None"
    by (simp_all add: dict_get_def)
  from missing_key_uncaught [where pars = "[(''output.directory'', [])]"
      and names = "[''optifind_near'']" and st = example_state and d = "[]"] k3
  have 3: "merge_catalogues [(''output.directory'', [])] [''optifind_near''] example_state
       = (example_state, Uncaught (KeyError ''output.writeCatASCII''))"
    by blast
  from 1 2 3 show ?thesis by blast
qed

subsection \<open>Merged catalogue\<close>

lemma hash_text_empty: "hash_text ls = [] \<longleftrightarrow> \<not> (\<exists>l \<in> set ls. is_hash l)"
  by (auto simp: hash_text_def is_hash_def filter_empty_conv)

lemma merge_lines_eq:
  "merge_lines need_header ls header content =
     (if need_header then header @ hash_text ls else header, content @ body_text ls)"
  by (induction ls arbitrary: header content)
     (simp_all add: hash_text_def body_text_def is_hash_def is_body_def)

lemma merge_texts_no_header:
  "merge_texts texts False header content = (header, content @ concat (map body_text texts))"
  by (induction texts arbitrary: content) (simp_all add: merge_lines_eq)

lemma merge_texts_eq:
  "merge_texts texts True [] content =
     (first_header texts, content @ concat (map body_text texts))"
proof (induction texts arbitrary: content)
  case Nil
  show ?case by simp
next
  case (Cons ls rest)
  show ?case
  proof (cases "\<exists>l \<in> set ls. is_hash l")
    case True
    then have "hash_text ls \<noteq> []" by (simp add: hash_text_empty)
    with True show ?thesis by (simp add: merge_lines_eq merge_texts_no_header)
  next
    case False
    then have "hash_text ls = []" by (simp add: hash_text_empty)
    with False Cons.IH show ?thesis by (simp add: merge_lines_eq)
  qed
qed

lemma first_header_split:
  assumes "\<forall>t \<in> set pre. \<forall>l \<in> set t. \<not> is_hash l" and "\<exists>l \<in> set ls. is_hash l"
  shows "first_header (pre @ ls # rest) = hash_text ls"
  using assms by (induction pre) simp_all

lemma first_header_none:
  assumes "\<forall>t \<in> set texts. \<forall>l \<in> set t. \<not> is_hash l"
  shows "first_header texts = []"
  using assms by (induction texts) simp_all

text \<open>
  C3 (as amended). Merging the catalogues, each given by its lines, yields as header
  all the lines starting with \<open>#\<close>, wherever they stand in the file, of the first
  catalogue that has such a line; the \<open>#\<close> lines of every later catalogue are dropped,
  and the header is empty when no catalogue has one. The body is every line that is
  not blank and does not start with \<open>#\<close>, of every catalogue, in processing order.
\<close>

theorem merge_header_and_body:
  "merge_texts texts True [] [] = (first_header texts, concat (map body_text texts))
   \<and> (\<forall>pre ls rest. texts = pre @ ls # rest
         \<and> (\<forall>t \<in> set pre. \<forall>l \<in> set t. \<not> is_hash l) \<and> (\<exists>l \<in> set ls. is_hash l) \<longrightarrow>
         first_header texts = concat (filter is_hash ls))
   \<and> ((\<forall>t \<in> set texts. \<forall>l \<in> set t. \<not> is_hash l) \<longrightarrow> first_header texts = [])"
proof (intro conjI allI impI)
  show "merge_texts texts True [] [] = (first_header texts, concat (map body_text texts))"
    using merge_texts_eq [of texts "[]"] by simp
next
  fix pre ls rest
  assume "texts = pre @ ls # rest
         \<and> (\<forall>t \<in> set pre. \<forall>l \<in> set t. \<not> is_hash l) \<and> (\<exists>l \<in> set ls. is_hash l)"
  then show "first_header texts = concat (filter is_hash ls)"
    using first_header_split [of pre ls rest] by (simp add: hash_text_def)
next
  assume "\<forall>t \<in> set texts. \<forall>l \<in> set t. \<not> is_hash l"
  then show "first_header texts = []" by (rule first_header_none)
qed

text \<open>The theorem at three catalogues: one without header, one with two header lines,
  one with a header line that is dropped.\<close>

theorem merge_header_and_body_witness:
  "merge_texts [[nl, ''1 2'' @ nl], [''# a'' @ nl, ''# b'' @ nl, ''3 4'' @ nl, ''  '' @ nl],
                [''# c'' @ nl, ''5 6'']] True [] []
     = (''# a'' @ nl @ ''# b'' @ nl, ''1 2'' @ nl @ ''3 4'' @ nl @ ''5 6'')
   \<and> first_header [[nl, ''1 2'' @ nl], [''# a'' @ nl, ''# b'' @ nl, ''3 4'' @ nl, ''  '' @ nl],
                [''# c'' @ nl, ''5 6'']]
     = concat (filter is_hash [''# a'' @ nl, ''# b'' @ nl, ''3 4'' @ nl, ''  '' @ nl])"
proof -
  let ?t1 = "[nl, ''1 2'' @ nl]"
  let ?t2 = "[''# a'' @ nl, ''# b'' @ nl, ''3 4'' @ nl, ''  '' @ nl]"
  let ?t3 = "[''# c'' @ nl, ''5 6'']"
  have h: "first_header [?t1, ?t2, ?t3] = ''# a'' @ nl @ ''# b'' @ nl" by code_simp
  have b: "concat (map body_text [?t1, ?t2, ?t3]) = ''1 2'' @ nl @ ''3 4'' @ nl @ ''5 6''"
    by code_simp
  have p: "\<forall>t \<in> set [?t1]. \<forall>l \<in> set t. \<not> is_hash l" by (simp add: is_hash_def nl_def)
  have q: "\<exists>l \<in> set ?t2. is_hash l" by (simp add: is_hash_def)
  note t = merge_header_and_body [of "[?t1, ?t2, ?t3]"]
  from t have 1: "merge_texts [?t1, ?t2, ?t3] True [] []
      = (first_header [?t1, ?t2, ?t3], concat (map body_text [?t1, ?t2, ?t3]))" by blast
  from t have "[?t1, ?t2, ?t3] = [?t1] @ ?t2 # [?t3]
         \<and> (\<forall>t \<in> set [?t1]. \<forall>l \<in> set t. \<not> is_hash l) \<and> (\<exists>l \<in> set ?t2. is_hash l) \<longrightarrow>
         first_header [?t1, ?t2, ?t3] = concat (filter is_hash ?t2)" by blast
  with p q have 2: "first_header [?t1, ?t2, ?t3] = concat (filter is_hash ?t2)" by simp
  from 1 2 h b show ?thesis by (simp only:)
qed

text \<open>
  C3 as stated fails: for a catalogue with a \<open>#\<close> line, a data row and another \<open>#\<close>
  line, the header holds both \<open>#\<close> lines, while the run of leading \<open>#\<close> lines is the
  first one only.
\<close>

theorem merge_header_counterexample:
  "fst (merge_texts [[''# h'' @ nl, ''1 2'' @ nl, ''# t'' @ nl]] True [] [])
     = ''# h'' @ nl @ ''# t'' @ nl
   \<and> leading_hash_text [''# h'' @ nl, ''1 2'' @ nl, ''# t'' @ nl] = ''# h'' @ nl"
  by code_simp

lemma read_catalogues_ok:
  assumes "list_all2 (\<lambda>item text. files w (catalogue_path dir item) = Some text) names contents"
  shows "read_catalogues w dir names acc = Inr (acc @ map py_lines contents)"
  using assms
  by (induction names contents arbitrary: acc rule: list_all2_induct)
     (simp_all add: catalogue_path_def)

lemma merge_catalogues_written:
  assumes "names \<noteq> []"
    and "dict_get pars ''output.directory'' = Some d"
    and "dict_get pars ''output.writeCatASCII'' = Some f" and "f \<noteq> []"
    and "list_all2 (\<lambda>item text. files (world st) (catalogue_path (directory_prefix d) item) = Some text)
           names contents"
    and "writable (world st) (directory_prefix d @ merged_name)"
  shows "merge_catalogues pars names st =
     (write_file (directory_prefix d @ merged_name)
        (first_header (map py_lines contents) @ nl @ concat (map body_text (map py_lines contents)))
        (emit (Stdout (''Creating merged ASCII catalogue:'' @ nl @ ''  '' @ directory_prefix d
                 @ merged_name @ nl)) st),
      Exit 0)"
proof -
  let ?st1 = "emit (Stdout (''Creating merged ASCII catalogue:'' @ nl @ ''  '' @ directory_prefix d
                 @ merged_name @ nl)) st"
  have w: "world ?st1 = world st" by (simp add: emit_def)
  have r: "read_catalogues (world ?st1) (directory_prefix d) names [] = Inr (map py_lines contents)"
    unfolding w using read_catalogues_ok [OF assms(5), of "[]"] by simp
  have m: "merge_texts (map py_lines contents) True [] [] =
      (first_header (map py_lines contents), concat (map body_text (map py_lines contents)))"
    using merge_texts_eq [of "map py_lines contents" "[]"] by simp
  show ?thesis
    using assms(1-4,6) r m w
    by (simp add: merge_catalogues_def Let_def directory_prefix_def del: map_map)
qed

lemma merge_catalogues_noop:
  "merge_catalogues pars [] st = (st, Exit 0)"
  "dict_get pars ''output.directory'' = Some d \<Longrightarrow> dict_get pars ''output.writeCatASCII'' = Some []
     \<Longrightarrow> merge_catalogues pars names st = (st, Exit 0)"
  by (simp_all add: merge_catalogues_def Let_def)

text \<open>
  C10. If the merge runs (at least one recorded run, both template keys present, a
  non-empty \<^verbatim>\<open>output.writeCatASCII\<close>), every per-source catalogue can be read, the
  merged file can be written and no catalogue has a line starting with \<open>#\<close>, then the
  script exits with 0 and the merged file is one newline followed by the body rows.
\<close>

theorem merged_file_without_header:
  assumes "names \<noteq> []"
    and "dict_get pars ''output.directory'' = Some d"
    and "dict_get pars ''output.writeCatASCII'' = Some f" and "f \<noteq> []"
    and "list_all2 (\<lambda>item text. files (world st) (catalogue_path (directory_prefix d) item) = Some text)
           names contents"
    and "writable (world st) (directory_prefix d @ merged_name)"
    and "\<forall>text \<in> set contents. \<forall>l \<in> set (py_lines text). \<not> is_hash l"
  shows "snd (merge_catalogues pars names st) = Exit 0
    \<and> files (world (fst (merge_catalogues pars names st))) (directory_prefix d @ merged_name)
        = Some (nl @ concat (map body_text (map py_lines contents)))"
proof -
  have "first_header (map py_lines contents) = []"
    using assms(7) by (intro first_header_none) simp
  with merge_catalogues_written [OF assms(1-6)] show ?thesis
    by (simp add: write_file_def)
qed

text \<open>The theorem at one recorded run whose catalogue has two rows and a blank line.\<close>

theorem merged_file_without_header_witness:
  "snd (merge_catalogues [(''output.directory'', []), (''output.writeCatASCII'', ''true'')]
          [''optifind_near''] example_merge_state) = Exit 0
   \<and> files (world (fst (merge_catalogues
          [(''output.directory'', []), (''output.writeCatASCII'', ''true'')]
          [''optifind_near''] example_merge_state))) merged_name
       = Some (nl @ ''1 2'' @ nl @ ''3 4'' @ nl)"
proof -
  let ?pars = "[(''output.directory'', []), (''output.writeCatASCII'', ''true'')]"
  let ?text = "''1 2'' @ nl @ nl @ ''3 4'' @ nl"
  have d: "dict_get ?pars ''output.directory'' = Some []"
    and f: "dict_get ?pars ''output.writeCatASCII'' = Some ''true''" "''true'' \<noteq> []"
    by (simp_all add: dict_get_def)
  have p: "directory_prefix [] = []" by (simp add: directory_prefix_def)
  have r: "list_all2 (\<lambda>item text. files (world example_merge_state)
                (catalogue_path (directory_prefix []) item) = Some text)
             [''optifind_near''] [?text]"
    by (simp add: p catalogue_path_def example_merge_state_def)
  have w: "writable (world example_merge_state) (directory_prefix [] @ merged_name)"
    by (simp add: example_merge_state_def)
  have h: "\<forall>text \<in> set [?text]. \<forall>l \<in> set (py_lines text). \<not> is_hash l"
    by (simp add: nl_def is_hash_def)
  have b: "concat (map body_text (map py_lines [?text])) = ''1 2'' @ nl @ ''3 4'' @ nl"
    by code_simp
  from merged_file_without_header [of "[''optifind_near'']" ?pars "[]" "''true''"
      example_merge_state "[?text]", OF _ d f r w h]
  show ?thesis by (simp only: p b append_Nil) simp
qed

subsection \<open>The merge guard\<close>

text \<open>
  C2 at a concrete run. The template sets \<^verbatim>\<open>output.writeCatASCII\<close> to \<^verbatim>\<open>false\<close>, the
  catalogue has one source inside the cube and no per-source text catalogue exists.
  The value is a non-empty string, so the test of line 234 passes: the script
  announces the merged catalogue, fails to read the per-source catalogue and exits
  with 1. Only an empty run list or an empty value skips the merge
  (\<open>merge_catalogues_noop\<close>).
\<close>

theorem merge_not_skipped_for_false:
  "dict_get (read_pars (py_lines example_template) []) ''output.writeCatASCII'' = Some ''false''
   \<and> snd (optifind example_env example_files_state) = Exit 1
   \<and> trace (fst (optifind example_env example_files_state)) =
       [Stdout (''Processing source '' @ dq @ ''near'' @ dq @ nl),
        Stdout (''  Region: 0, 6, 0, 7, 22, 28'' @ nl),
        System ''sofia sofia_optifind_parameter_file.tmp'',
        System ''rm -f sofia_optifind_parameter_file.tmp'',
        Stdout (''Creating merged ASCII catalogue:'' @ nl @ ''  optifind_merged_catalogue.txt'' @ nl),
        Stderr (''ERROR: Failed to read SoFiA 2 catalogue: optifind_near_cat.txt'' @ nl)]"
proof (intro conjI)
  show "dict_get (read_pars (py_lines example_template) []) ''output.writeCatASCII'' = Some ''false''"
    by code_simp
  show "snd (optifind example_env example_files_state) = Exit 1"
    by code_simp
  show "trace (fst (optifind example_env example_files_state)) =
       [Stdout (''Processing source '' @ dq @ ''near'' @ dq @ nl),
        Stdout (''  Region: 0, 6, 0, 7, 22, 28'' @ nl),
        System ''sofia sofia_optifind_parameter_file.tmp'',
        System ''rm -f sofia_optifind_parameter_file.tmp'',
        Stdout (''Creating merged ASCII catalogue:'' @ nl @ ''  optifind_merged_catalogue.txt'' @ nl),
        Stderr (''ERROR: Failed to read SoFiA 2 catalogue: optifind_near_cat.txt'' @ nl)]"
    by code_simp
qed

end
